theory Spec2Isabelle
  imports Main "HOL-Library.Sublist" "HOL-Library.AList"
begin

section \<open>Strings\<close>

text \<open>
  A JavaScript string is modelled as a \<^typ>\<open>string\<close>: each \<^typ>\<open>char\<close> stands for the
  code unit with the same number, so the model covers the names written in the code
  points U+0000 to U+00FF. The character classes below are the ones of the regular
  expressions in the source, restricted to that range.
\<close>

definition code :: "char \<Rightarrow> nat" where
  "code c = of_char c"

text \<open>\<open>\d\<close>\<close>

definition isDigit :: "char \<Rightarrow> bool" where
  "isDigit c = (48 \<le> code c \<and> code c \<le> 57)"

text \<open>\<open>\w\<close>: \<open>[A-Za-z0-9_]\<close>\<close>

definition isWord :: "char \<Rightarrow> bool" where
  "isWord c = ((65 \<le> code c \<and> code c \<le> 90) \<or> (97 \<le> code c \<and> code c \<le> 122)
                \<or> isDigit c \<or> c = CHR ''_'')"

text \<open>\<open>\s\<close>: tab, line feed, vertical tab, form feed, carriage return, space, no-break space\<close>

definition isSpace :: "char \<Rightarrow> bool" where
  "isSpace c = ((9 \<le> code c \<and> code c \<le> 13) \<or> code c = 32 \<or> code c = 160)"

text \<open>\<open>.\<close> (without the \<open>s\<close> flag): anything but a line terminator\<close>

definition isDot :: "char \<Rightarrow> bool" where
  "isDot c = (code c \<noteq> 10 \<and> code c \<noteq> 13)"

text \<open>\<open>[\w|\d|\s-]\<close>, the characters of the bracketed tag\<close>

definition isTagChar :: "char \<Rightarrow> bool" where
  "isTagChar c = (isWord c \<or> c = CHR ''|'' \<or> isDigit c \<or> isSpace c \<or> c = CHR ''-'')"

text \<open>
  \<open>String.prototype.toLowerCase\<close>: below U+0100 the letters with a lower-case form are
  \<open>A\<close> to \<open>Z\<close> and U+00C0 to U+00DE without the multiplication sign U+00D7; each
  maps to the code point 32 above it.
\<close>

definition lowerChar :: "char \<Rightarrow> char" where
  "lowerChar c =
     (if (65 \<le> code c \<and> code c \<le> 90) \<or> (192 \<le> code c \<and> code c \<le> 222 \<and> code c \<noteq> 215)
      then char_of (code c + 32) else c)"

definition toLowerCase :: "string \<Rightarrow> string" where
  "toLowerCase s = map lowerChar s"

text \<open>\<open>hay.includes(needle)\<close>: the needle occurs at some position of the hay.\<close>

fun str_includes :: "string \<Rightarrow> string \<Rightarrow> bool" where
  "str_includes [] needle = (needle = [])"
| "str_includes (c # cs) needle = (prefix needle (c # cs) \<or> str_includes cs needle)"

text \<open>A literal character of a pattern under the \<open>i\<close> flag.\<close>

definition sameLetter :: "char \<Rightarrow> char \<Rightarrow> bool" where
  "sameLetter l c = (lowerChar c = l)"

section \<open>Backtracking matchers\<close>

text \<open>
  A matcher maps the rest of the input to the list of its possible matches, each with
  the text it consumed and the input left, in the order in which a backtracking regular
  expression engine tries them. The first element of the list of a whole pattern is the
  match that \<open>RegExp.prototype.exec\<close> returns.
\<close>

text \<open>
  A greedy quantifier \<open>{lo,hi}\<close> over a character class: the longest run first. The
  quantifier \<open>+\<close> is \<open>{1,}\<close>, bounded here by the length of the input.
\<close>

definition greedy :: "(char \<Rightarrow> bool) \<Rightarrow> nat \<Rightarrow> nat \<Rightarrow> string \<Rightarrow> (string \<times> string) list" where
  "greedy p lo hi s =
     map (\<lambda>n. (take n s, drop n s)) (rev [lo ..< Suc (min hi (length (takeWhile p s)))])"

definition oneOf :: "(char \<Rightarrow> bool) \<Rightarrow> string \<Rightarrow> (string \<times> string) list" where
  "oneOf p s = (case s of [] \<Rightarrow> [] | c # r \<Rightarrow> if p c then [([c], r)] else [])"

section \<open>The file name parser\<close>

text \<open>
  The capture groups of \<open>fansubRegEx\<close> that \<open>serializeFansubFilename\<close> reads, in the
  order of the pattern; a group that took no part in the match is \<open>undefined\<close>. The
  groups \<open>seasonAlt\<close> and \<open>epNumAlt\<close> stand in the same alternative of the pattern and
  are set together or not at all, so they are one optional pair.
\<close>

record Parts =
  fansub :: string
  title :: string
  seasonP :: "string option"
  epNumP :: string
  seasonAlt_epNumAlt :: "(string \<times> string) option"

text \<open>\<open>^\[([\w|\d|\s-]+)\]\<close>: the bracketed tag at the start; yields the tag and the rest.\<close>

definition tagPrefix :: "string \<Rightarrow> (string \<times> string) list" where
  "tagPrefix s =
     [(tag, r3). (b, r1) \<leftarrow> oneOf (\<lambda>c. c = CHR ''['') s,
                 (tag, r2) \<leftarrow> greedy isTagChar 1 (length r1) r1,
                 (e, r3) \<leftarrow> oneOf (\<lambda>c. c = CHR '']'') r2]"

text \<open>\<open>(\sS[0-9]{1,2})?\<close>: the optional season marker, tried first with the group present.\<close>

definition seasonMarker :: "string \<Rightarrow> (string option \<times> string) list" where
  "seasonMarker s =
     [(Some (w @ l @ d), r3). (w, r1) \<leftarrow> oneOf isSpace s,
                              (l, r2) \<leftarrow> oneOf (sameLetter CHR ''s'') r1,
                              (d, r3) \<leftarrow> greedy isDigit 1 2 r2]
     @ [(None, s)]"

text \<open>
  \<open>([0-9]{2,4}|S([0-9]{2})E([0-9]{2,4})|[0-9]{2,4}v[0-9])\<close>: the episode token with the
  two groups of its middle alternative, the alternatives in the order of the pattern.
\<close>

definition episodeToken :: "string \<Rightarrow> ((string \<times> (string \<times> string) option) \<times> string) list" where
  "episodeToken s =
     [((d, None), r). (d, r) \<leftarrow> greedy isDigit 2 4 s]
     @ [((l @ sa @ e @ ea, Some (sa, ea)), r4).
          (l, r1) \<leftarrow> oneOf (sameLetter CHR ''s'') s,
          (sa, r2) \<leftarrow> greedy isDigit 2 2 r1,
          (e, r3) \<leftarrow> oneOf (sameLetter CHR ''e'') r2,
          (ea, r4) \<leftarrow> greedy isDigit 2 4 r3]
     @ [((d @ v @ n, None), r3).
          (d, r1) \<leftarrow> greedy isDigit 2 4 s,
          (v, r2) \<leftarrow> oneOf (sameLetter CHR ''v'') r1,
          (n, r3) \<leftarrow> oneOf isDigit r2]"

text \<open>
  The whole pattern
  \<open>/^\[([\w|\d|\s-]+)\]\s(.+)(\sS[0-9]{1,2})?\s([0-9]{2,4}|S([0-9]{2})E([0-9]{2,4})|[0-9]{2,4}v[0-9])(\s|\.)/gi\<close>:
  every way to match it at the start of the name, in the engine's order.
\<close>

definition fansubMatches :: "string \<Rightarrow> Parts list" where
  "fansubMatches name =
     [\<lparr>fansub = tag, title = t, seasonP = sp, epNumP = ep, seasonAlt_epNumAlt = alt\<rparr>.
        (tag, r1) \<leftarrow> tagPrefix name,
        (w1, r2) \<leftarrow> oneOf isSpace r1,
        (t, r3) \<leftarrow> greedy isDot 1 (length r2) r2,
        (sp, r4) \<leftarrow> seasonMarker r3,
        (w2, r5) \<leftarrow> oneOf isSpace r4,
        ((ep, alt), r6) \<leftarrow> episodeToken r5,
        (e, r7) \<leftarrow> oneOf (\<lambda>c. isSpace c \<or> c = CHR ''.'') r6]"

text \<open>\<open>fansubRegEx.exec(name)\<close>: the first match, or \<open>null\<close>.\<close>

definition fansubRegEx_exec :: "string \<Rightarrow> Parts option" where
  "fansubRegEx_exec name = (case fansubMatches name of [] \<Rightarrow> None | p # _ \<Rightarrow> Some p)"

text \<open>
  A JavaScript number as far as the program meets one: an integer or \<open>NaN\<close>.
\<close>

datatype number = NaN | Num int

text \<open>
  \<open>Number(s)\<close> on the text of an episode token: a run of decimal digits is its value
  (the empty run is 0), and a token with a version suffix (\<open>12v2\<close>) or an \<open>S..E..\<close>
  token is not a numeric literal.
\<close>

definition digitValue :: "string \<Rightarrow> int" where
  "digitValue s = foldl (\<lambda>acc c. 10 * acc + (int (code c) - 48)) 0 s"

definition Number_of_token :: "string \<Rightarrow> number" where
  "Number_of_token s = (if list_all isDigit s then Num (digitValue s) else NaN)"

record FansubFilenameData =
  fansub :: string
  title :: string
  epNum :: number
  paddedEpNum :: string
  season :: "string option"

text \<open>
  \<open>serializeFansubFilename\<close>. A captured string is truthy when it is not empty;
  \<open>epNumP.split('v')[0]\<close> is the text before the first \<open>v\<close>; \<open>substring(0, n)\<close>
  with a negative \<open>n\<close> is the empty string, as \<^const>\<open>take\<close> on the truncated difference is.
\<close>

definition serializeFansubFilename :: "Parts \<Rightarrow> FansubFilenameData" where
  "serializeFansubFilename filenameParts =
     (let t = Parts.title filenameParts;
          p = epNumP filenameParts;
          plain = (Number_of_token p,
                   (if str_includes p ''v'' then takeWhile (\<lambda>c. c \<noteq> CHR ''v'') p else p),
                   seasonP filenameParts);
          (n, padded, s) =
            (case seasonAlt_epNumAlt filenameParts of
               Some (seasonAlt, epNumAlt) \<Rightarrow>
                 if seasonAlt \<noteq> [] then (Number_of_token epNumAlt, epNumAlt, Some seasonAlt)
                 else plain
             | None \<Rightarrow> plain)
      in \<lparr>fansub = Parts.fansub filenameParts,
          title = (if t \<noteq> [] \<and> last t = CHR ''-'' then take (length t - 2) t else t),
          epNum = n,
          paddedEpNum = padded,
          season = s\<rparr>)"

text \<open>The failure half of the pair that \<open>parseFansubFilename\<close> returns.\<close>

record ParseFailure =
  parseError :: string
  fileName :: string

definition batchMessage :: string where
  "batchMessage = ''This is a batch file, which means the season is over.''"

definition otherGroupMessage :: string where
  "otherGroupMessage = ''Try to find another fansub group.''"

definition parseFansubFilename :: "string \<Rightarrow> ParseFailure + FansubFilenameData" where
  "parseFansubFilename name =
     (case fansubRegEx_exec name of
        None \<Rightarrow>
          Inl \<lparr>parseError =
                 (if str_includes (toLowerCase name) ''(batch)'' \<or> str_includes (toLowerCase name) ''[batch]''
                  then batchMessage else otherGroupMessage),
               fileName = name\<rparr>
      | Some parts \<Rightarrow> Inr (serializeFansubFilename parts))"

text \<open>\<open>truncateStr\<close>\<close>

definition truncateStr :: "string \<Rightarrow> nat \<Rightarrow> string" where
  "truncateStr str len =
     (let substr = take len str
      in if length substr < length str then substr @ ''...'' else str)"

section \<open>The working directory\<close>

text \<open>
  The file system as the program sees it, with the meaning that the calls of \<open>node:fs\<close>
  have on Linux: the node that the path \<open>workingDir\<close> names, if it names one. A node is
  a regular file, a special file (a pipe, a socket, a device), a symbolic link together
  with the node that its target names (none for a dangling link), or a directory with
  its entries, in the order in which \<open>readdirSync\<close> reports them. A node that is not a
  directory carries the number of its inode: two names with the same number are hard
  links of one file. A name occurs once in a directory, and the lookups take its first
  entry. \<open>pathJoin(workingDir, 'watched')\<close> is the entry \<open>watched\<close> of the working
  directory and \<open>pathJoin(workingDir, 'watched', fileName)\<close> the entry \<open>fileName\<close> below
  it, for a name as a directory listing yields it (one path segment).

  The model covers the runs in which the permissions allow each call, all the nodes lie on
  one volume, and the links lead out of the working directory, by absolute paths, to
  nodes that share nothing with the working directory but hard links of files.
\<close>

datatype node = File nat | Special nat | Link nat "node option" | Dir "(string \<times> node) list"

datatype errno = ENOENT | ENOTDIR | EEXIST | EISDIR | ENOTEMPTY | EINVAL

type_synonym fs = "node option"

text \<open>
  A path that runs through a node, or that has to name a directory, follows the links:
  the entries of the directory the node is or leads to, the error of the lookup otherwise.
\<close>

fun directoryOf :: "node \<Rightarrow> errno + (string \<times> node) list" where
  "directoryOf (Dir es) = Inr es"
| "directoryOf (Link i None) = Inl ENOENT"
| "directoryOf (Link i (Some target)) = directoryOf target"
| "directoryOf (File i) = Inl ENOTDIR"
| "directoryOf (Special i) = Inl ENOTDIR"

text \<open>The node once the directory it is or leads to has the given entries.\<close>

fun withEntries :: "node \<Rightarrow> (string \<times> node) list \<Rightarrow> node" where
  "withEntries (Dir es) es' = Dir es'"
| "withEntries (Link i (Some target)) es' = Link i (Some (withEntries target es'))"
| "withEntries (Link i None) es' = Link i None"
| "withEntries (File i) es' = File i"
| "withEntries (Special i) es' = Special i"

text \<open>A path to the node names something: every link on the way has a target.\<close>

fun leadsSomewhere :: "node \<Rightarrow> bool" where
  "leadsSomewhere (Link i None) = False"
| "leadsSomewhere (Link i (Some target)) = leadsSomewhere target"
| "leadsSomewhere (Dir es) = True"
| "leadsSomewhere (File i) = True"
| "leadsSomewhere (Special i) = True"

fun inode :: "node \<Rightarrow> nat option" where
  "inode (File i) = Some i"
| "inode (Special i) = Some i"
| "inode (Link i target) = Some i"
| "inode (Dir es) = None"

fun isDirectory :: "node \<Rightarrow> bool" where
  "isDirectory (Dir es) = True"
| "isDirectory (File i) = False"
| "isDirectory (Special i) = False"
| "isDirectory (Link i target) = False"

text \<open>
  \<open>existsSync(pathJoin(workingDir, 'watched'))\<close>: whether the path can be accessed, links
  followed; every failure of the lookup is the answer \<open>false\<close>.
\<close>

definition existsSync_watched :: "fs \<Rightarrow> bool" where
  "existsSync_watched wd =
     (case wd of
        None \<Rightarrow> False
      | Some root \<Rightarrow>
          (case directoryOf root of
             Inl e \<Rightarrow> False
           | Inr es \<Rightarrow> (case map_of es ''watched'' of None \<Rightarrow> False | Some n \<Rightarrow> leadsSomewhere n)))"

text \<open>
  \<open>mkdirSync(pathJoin(workingDir, 'watched'))\<close>, not recursive: an entry of that name, of
  whatever kind and be it a dangling link, is in the way.
\<close>

definition mkdirSync_watched :: "fs \<Rightarrow> errno + fs" where
  "mkdirSync_watched wd =
     (case wd of
        None \<Rightarrow> Inl ENOENT
      | Some root \<Rightarrow>
          (case directoryOf root of
             Inl e \<Rightarrow> Inl e
           | Inr es \<Rightarrow>
               if map_of es ''watched'' \<noteq> None then Inl EEXIST
               else Inr (Some (withEntries root (es @ [(''watched'', Dir [])])))))"

text \<open>\<open>readdirSync(workingDir, { withFileTypes: true })\<close>\<close>

definition readdirSync :: "fs \<Rightarrow> errno + (string \<times> node) list" where
  "readdirSync wd = (case wd of None \<Rightarrow> Inl ENOENT | Some root \<Rightarrow> directoryOf root)"

text \<open>\<open>Dirent.isFile\<close>: the entry itself is a regular file; a link to one is not.\<close>

definition isFile :: "string \<times> node \<Rightarrow> bool" where
  "isFile file = (case snd file of File i \<Rightarrow> True | _ \<Rightarrow> False)"

text \<open>
  \<open>renameSync(pathJoin(workingDir, fileName), pathJoin(workingDir, 'watched', fileName))\<close>,
  the checks in the order of \<open>rename(2)\<close>. The directories of both paths are looked up,
  links followed; then the source, which is not followed when it is a link, must exist;
  a directory is not moved into itself; when the target is a hard link of the source
  nothing is done; a directory replaces nothing but an empty directory, and a node that
  is not a directory does not replace one. Otherwise the source leaves the working
  directory and takes the name \<open>fileName\<close> in the directory that \<open>watched\<close> is or leads
  to, replacing what had that name. When the source is the link \<open>watched\<close> itself, it
  moves into the directory it leads to, which is then out of the working directory's
  sight.
\<close>

definition renameSync_into_watched :: "string \<Rightarrow> fs \<Rightarrow> errno + fs" where
  "renameSync_into_watched name wd =
     (case wd of
        None \<Rightarrow> Inl ENOENT
      | Some root \<Rightarrow>
          (case directoryOf root of
             Inl e \<Rightarrow> Inl e
           | Inr es \<Rightarrow>
               (case map_of es ''watched'' of
                  None \<Rightarrow> Inl ENOENT
                | Some p \<Rightarrow>
                    (case directoryOf p of
                       Inl e \<Rightarrow> Inl e
                     | Inr ws \<Rightarrow>
                         (case map_of es name of
                            None \<Rightarrow> Inl ENOENT
                          | Some n \<Rightarrow>
                              (let moved =
                                     Inr (Some (withEntries root
                                       (if name = ''watched'' then AList.delete name es
                                        else AList.update ''watched''
                                               (withEntries p (AList.update name n ws))
                                               (AList.delete name es))))
                               in if name = ''watched'' \<and> isDirectory p then Inl EINVAL
                                  else (case map_of ws name of
                                          None \<Rightarrow> moved
                                        | Some t \<Rightarrow>
                                            if inode n \<noteq> None \<and> inode n = inode t then Inr wd
                                            else if isDirectory n \<and> \<not> isDirectory t then Inl ENOTDIR
                                            else if \<not> isDirectory n \<and> isDirectory t then Inl EISDIR
                                            else if isDirectory t \<and> directoryOf t \<noteq> Inr [] then Inl ENOTEMPTY
                                            else moved)))))))"

text \<open>\<open>tryCreateWatchedDir\<close>\<close>

definition tryCreateWatchedDir :: "fs \<Rightarrow> errno + fs" where
  "tryCreateWatchedDir wd =
     (if \<not> existsSync_watched wd then mkdirSync_watched wd else Inr wd)"

text \<open>\<open>moveFileToWatchedDir\<close>\<close>

definition moveFileToWatchedDir :: "string \<Rightarrow> fs \<Rightarrow> errno + fs" where
  "moveFileToWatchedDir name wd = renameSync_into_watched name wd"

text \<open>
  \<open>filterFansubFilenames\<close>; \<open>name.match(/^\[([\w|\d|\s-]+)\]/gi)\<close> is truthy when the
  pattern matches at the start of the name.
\<close>

definition episodeSyntax :: "string \<Rightarrow> string" where
  "episodeSyntax epNumStr = (if length epNumStr = 1 then ''- 0'' @ epNumStr else ''- '' @ epNumStr)"

definition keepsName :: "string \<Rightarrow> string \<Rightarrow> string \<Rightarrow> bool" where
  "keepsName epName epNumStr name =
     (tagPrefix name \<noteq> [] \<and> str_includes (toLowerCase name) epName
      \<and> str_includes name (episodeSyntax epNumStr))"

definition filterFansubFilenames :: "fs \<Rightarrow> string \<Rightarrow> string \<Rightarrow> errno + string list" where
  "filterFansubFilenames wd epName epNumStr =
     (case readdirSync wd of
        Inl e \<Rightarrow> Inl e
      | Inr files \<Rightarrow> Inr (filter (keepsName epName epNumStr) (map fst (filter isFile files))))"

section \<open>The cache, the bindings and the remote\<close>

record KitsuCacheItem =
  libID :: string
  jpTitle :: string
  enTitle :: string
  synonyms :: "string list"
  epProgress :: int
  epCount :: int

text \<open>
  Cache items are objects: the cache array, the filtered array and the synchronizer's
  \<open>anime\<close> hold references to them. A slot of the cache array holds a reference or is
  empty (an array grows by empty slots when an index past its end is assigned).
\<close>

type_synonym ref = nat

text \<open>The body of the request built by \<open>buildLibPatchReqArgs\<close>, its nesting flattened.\<close>

record LibPatch =
  data_id :: string
  data_type :: string
  data_attributes_progress :: number

text \<open>
  The state one invocation works on: the object store, the configuration held in memory
  (cache and file bindings), what \<open>Config.save\<close> wrote last, the requests sent to the
  remote, and the working directory.
\<close>

record World =
  objects :: "ref \<Rightarrow> KitsuCacheItem"
  nextRef :: ref
  cache :: "ref option list"
  fileBindings :: "string \<rightharpoonup> string"
  saved :: "(KitsuCacheItem option list \<times> (string \<rightharpoonup> string)) option"
  requests :: "(string \<times> LibPatch) list"
  files :: fs

text \<open>
  How an invocation can end early: by \<open>process.exit(1)\<close> after an error was printed, or
  by an exception that nothing catches. Each kind carries the error chain or message that
  was printed, or the failure that was raised; \<open>NoParsedData\<close> carries the file name for
  which the file name parser gave the caller no data. What a run prints besides
  (progress and information lines) is not part of the state.
\<close>

datatype fatal =
    FsFailure errno
  | EntryNotFound "string list"
  | AmbiguousEntries "string list"
  | FileNotFound string
  | AmbiguousFiles "string list"
  | NoParsedData string
  | RemoteUpdateFailure string
  | RelocationFailure errno

datatype 'a outcome = Exit fatal World | Done 'a World

text \<open>\<open>structuredClone\<close> of a cache item: a new object with the same contents.\<close>

definition structuredClone :: "ref \<Rightarrow> World \<Rightarrow> ref \<times> World" where
  "structuredClone r w =
     (nextRef w, w\<lparr>objects := (objects w)(nextRef w := objects w r), nextRef := Suc (nextRef w)\<rparr>)"

text \<open>\<open>Array.prototype.findIndex\<close>: the first index whose element passes, or -1.\<close>

fun findIndex :: "('a \<Rightarrow> bool) \<Rightarrow> 'a list \<Rightarrow> int" where
  "findIndex p [] = -1"
| "findIndex p (x # xs) =
     (if p x then 0 else (let i = findIndex p xs in if i < 0 then -1 else i + 1))"

text \<open>
  \<open>array[i] = v\<close>: a slot of the array is replaced, an index past the end grows the
  array by empty slots up to it, and a negative index names a property of the array
  object and leaves its elements as they are.
\<close>

definition assignIndex :: "'a option list \<Rightarrow> int \<Rightarrow> 'a \<Rightarrow> 'a option list" where
  "assignIndex xs i v =
     (if i < 0 then xs
      else if nat i < length xs then xs[nat i := Some v]
      else xs @ replicate (nat i - length xs) None @ [Some v])"

text \<open>The operator \<open>a ?? b\<close>: \<open>b\<close> when \<open>a\<close> is \<open>null\<close> or \<open>undefined\<close>.\<close>

definition nullish :: "'a option \<Rightarrow> 'a \<Rightarrow> 'a" where
  "nullish a b = (case a of None \<Rightarrow> b | Some v \<Rightarrow> v)"

text \<open>
  Modelled from the spec: the accessors of the \<open>Kitsu\<close> and \<open>Config\<close> classes are not
  among the sources. \<open>Kitsu.animeCache\<close> is the cache array of the configuration
  (\<open>getCache() -> list\<close>); the binding store is the mapping \<open>libraryId -> searchTitle\<close>
  with \<open>getFileBinding(id) -> string|null\<close> and \<open>setFileBinding(id, string)\<close>;
  \<open>removeAnimeFromCache\<close> removes the entry, which the cache knows by its primary key
  \<open>libraryId\<close>, and with \<open>saveConfig: false\<close> does not persist; \<open>Config.save\<close> persists the
  whole configuration.
\<close>

definition animeCache :: "World \<Rightarrow> ref option list" where
  "animeCache w = cache w"

definition getFileBinding :: "string \<Rightarrow> World \<Rightarrow> string option" where
  "getFileBinding ident w = fileBindings w ident"

definition setFileBinding :: "string \<Rightarrow> string \<Rightarrow> World \<Rightarrow> World" where
  "setFileBinding ident t w = w\<lparr>fileBindings := (fileBindings w)(ident \<mapsto> t)\<rparr>"

definition removeAnimeFromCache :: "ref \<Rightarrow> World \<Rightarrow> World" where
  "removeAnimeFromCache a w =
     w\<lparr>cache := filter (\<lambda>c. case c of None \<Rightarrow> False
                                     | Some r \<Rightarrow> libID (objects w r) \<noteq> libID (objects w a))
                        (cache w)\<rparr>"

definition Config_save :: "World \<Rightarrow> World" where
  "Config_save w = w\<lparr>saved := Some (map (map_option (objects w)) (cache w), fileBindings w)\<rparr>"

text \<open>
  The resolver and the synchronizer read \<open>title\<close> and \<open>paddedEpNum\<close> off what their
  \<open>parseFansubFilename\<close> returns. The function of that name among the sources returns
  a pair, which has no such properties, so the function that these callers were written
  for is not among the sources. It is a parameter \<open>parse\<close> of the model: \<open>parse name\<close>
  is the data that the call hands to its caller, or nothing. When nothing comes back,
  neither \<open>parseFansubFilename(fileName).title.toLowerCase()\<close> nor
  \<open>truncateStr(title, 60)\<close> returns, and the invocation ends there: so it is with the
  function among the sources, for every name, by a \<open>TypeError\<close>.
\<close>

type_synonym parser = "string \<Rightarrow> FansubFilenameData option"

section \<open>The candidate resolver\<close>

text \<open>The predicate of the cache filter in \<open>watchAnime\<close>.\<close>

definition titleIncludes :: "string \<Rightarrow> KitsuCacheItem \<Rightarrow> bool" where
  "titleIncludes epName a =
     (str_includes (toLowerCase (jpTitle a)) epName
      \<or> str_includes (toLowerCase (enTitle a)) epName
      \<or> list_ex (\<lambda>s. str_includes (toLowerCase s) epName) (synonyms a))"

text \<open>\<open>Kitsu.animeCache.filter(...)\<close>; \<open>filter\<close> passes over empty slots.\<close>

definition cachedAnime :: "string \<Rightarrow> World \<Rightarrow> ref list" where
  "cachedAnime epName w = [r. Some r \<leftarrow> animeCache w, titleIncludes epName (objects w r)]"

text \<open>\<open>validateCachedAnime\<close>\<close>

definition validateCachedAnime :: "ref list \<Rightarrow> World \<Rightarrow> (ref \<times> int) outcome" where
  "validateCachedAnime found w =
     (if found = [] then
        Exit (EntryNotFound
               ['''',
                '';r;Anime Not Found -- for 3 possible reasons'',
                '';bc;(1) The Anime is not in your ;by;Kitsu ;bc;watch list'',
                '';bc;(2) You forgot to ;by;-rc ;bc;after updating ;by;Kitsu ;bc;watch list'',
                '';bc;(3) File name of the Anime has not been bound to the cache yet'']) w
      else if length found > 1 then
        Exit (AmbiguousEntries
               (['''', '';r;Multiple Cached Titles Found'']
                @ map (\<lambda>r. '';bc;Title: ;x;'' @ jpTitle (objects w r)) found
                @ ['';by;Use a more unique name to reference the episode''])) w
      else
        (let (clone, w') = structuredClone (hd found) w
         in Done (clone, findIndex (\<lambda>c. c = Some (hd found)) (cache w')) w'))"

text \<open>
  \<open>displayErrorTooManyFiles\<close>: the lines that the loop adds to the error chain, or the
  first name in turn for which the parser gives no data; and the chain that is printed.
\<close>

fun candidateLines :: "parser \<Rightarrow> string list \<Rightarrow> string + string list" where
  "candidateLines parse [] = Inr []"
| "candidateLines parse (name # names) =
     (case parse name of
        None \<Rightarrow> Inl name
      | Some d \<Rightarrow>
          (case candidateLines parse names of
             Inl stopped \<Rightarrow> Inl stopped
           | Inr ls \<Rightarrow>
               Inr (('';by;'' @ truncateStr (FansubFilenameData.title d) 60 @ '' ;x;- '' @ paddedEpNum d)
                    # ls)))"

definition displayErrorTooManyFiles :: "parser \<Rightarrow> string list \<Rightarrow> fatal" where
  "displayErrorTooManyFiles parse fileNames =
     (case candidateLines parse fileNames of
        Inl stopped \<Rightarrow> NoParsedData stopped
      | Inr ls \<Rightarrow> AmbiguousFiles (['''', '';r;More than one file name found''] @ ls))"

section \<open>The progress synchronizer\<close>

record ProgressOptions =
  anime :: ref
  cacheIndex :: int
  epNum :: number
  forcedEpNum :: number
  fileName :: string

text \<open>A number is falsy when it is 0 or \<open>NaN\<close>; a string when it is absent or empty.\<close>

definition truthy :: "number \<Rightarrow> bool" where
  "truthy n = (n \<noteq> NaN \<and> n \<noteq> Num 0)"

definition truthyStr :: "string option \<Rightarrow> bool" where
  "truthyStr s = (s \<noteq> None \<and> s \<noteq> Some [])"

text \<open>The operator \<open>a || b\<close> on numbers.\<close>

definition orElse :: "number \<Rightarrow> number \<Rightarrow> number" where
  "orElse a b = (if truthy a then a else b)"

text \<open>\<open>buildLibPatchReqArgs\<close>\<close>

definition buildLibPatchReqArgs :: "string \<Rightarrow> number \<Rightarrow> string \<times> LibPatch" where
  "buildLibPatchReqArgs ident progress =
     (''https://kitsu.io/api/edge/library-entries/'' @ ident,
      \<lparr>data_id = ident, data_type = ''library-entries'', data_attributes_progress = progress\<rparr>)"

text \<open>
  \<open>saveAnimeProgress\<close>. The remote \<open>Kitsu.updateAnime\<close> is a parameter: it answers a
  request with the confirmed progress and the episode count, if it knows one, or fails.
\<close>

definition saveAnimeProgress ::
  "parser \<Rightarrow> (string \<Rightarrow> LibPatch \<Rightarrow> string + int \<times> int option) \<Rightarrow> ProgressOptions \<Rightarrow> World
   \<Rightarrow> unit outcome"
where
  "saveAnimeProgress parse updateAnime opt w =
     (let a = anime opt;
          (url, body) = buildLibPatchReqArgs (libID (objects w a))
                          (orElse (forcedEpNum opt) (ProgressOptions.epNum opt));
          w1 = w\<lparr>requests := requests w @ [(url, body)]\<rparr>
      in case updateAnime url body of
           Inl failure \<Rightarrow> Exit (RemoteUpdateFailure failure) w1
         | Inr (progress, episodeCount) \<Rightarrow>
             (let w2 = w1\<lparr>objects := (objects w1)(a := (objects w1 a)\<lparr>epProgress := progress\<rparr>)\<rparr>;
                  w3 = w2\<lparr>objects := (objects w2)(a := (objects w2 a)\<lparr>epCount := nullish episodeCount 0\<rparr>)\<rparr>
              in if progress > 0 \<and> Some progress = episodeCount then
                   Done () (Config_save (removeAnimeFromCache a w3))
                 else if \<not> truthyStr (getFileBinding (libID (objects w3 a)) w3) then
                   (case parse (ProgressOptions.fileName opt) of
                      None \<Rightarrow> Exit (NoParsedData (ProgressOptions.fileName opt)) w3
                    | Some d \<Rightarrow>
                        (let w4 = setFileBinding (libID (objects w3 a))
                                    (toLowerCase (FansubFilenameData.title d)) w3
                         in Done () (Config_save (w4\<lparr>cache := assignIndex (cache w4) (cacheIndex opt) a\<rparr>))))
                 else
                   Done () (Config_save (w3\<lparr>cache := assignIndex (cache w3) (cacheIndex opt) a\<rparr>))))"

section \<open>One invocation\<close>

text \<open>
  \<open>watchAnime\<close>. \<open>Number\<close>, the conversion of the two episode arguments, is a parameter.
\<close>

definition watchAnime ::
  "parser \<Rightarrow> (string \<Rightarrow> number) \<Rightarrow> (string \<Rightarrow> LibPatch \<Rightarrow> string + int \<times> int option)
   \<Rightarrow> string \<Rightarrow> string \<times> string \<Rightarrow> World \<Rightarrow> unit outcome"
where
  "watchAnime parse toNumber updateAnime epName epNumStrings w =
     (let (fileEpNumStr, forcedEpNumStr) = epNumStrings
      in case tryCreateWatchedDir (files w) of
           Inl e \<Rightarrow> Exit (FsFailure e) w
         | Inr wd1 \<Rightarrow>
             (let w1 = w\<lparr>files := wd1\<rparr>
              in case validateCachedAnime (cachedAnime epName w1) w1 of
                   Exit f w2 \<Rightarrow> Exit f w2
                 | Done (validAnime, index) w2 \<Rightarrow>
                     (let fileTitle = nullish (getFileBinding (libID (objects w2 validAnime)) w2) epName
                      in case filterFansubFilenames (files w2) fileTitle fileEpNumStr of
                           Inl e \<Rightarrow> Exit (FsFailure e) w2
                         | Inr fansubFileNames \<Rightarrow>
                             if fansubFileNames = [] then
                               Exit (FileNotFound ('';by;'' @ fileTitle @ '' ;x;episode ;by;'' @ fileEpNumStr
                                                   @ '' ;x;does NOT exist'')) w2
                             else if length fansubFileNames > 1 then
                               Exit (displayErrorTooManyFiles parse fansubFileNames) w2
                             else
                               (case saveAnimeProgress parse updateAnime
                                       \<lparr>anime = validAnime, cacheIndex = index,
                                        epNum = toNumber fileEpNumStr,
                                        forcedEpNum = toNumber forcedEpNumStr,
                                        fileName = hd fansubFileNames\<rparr> w2 of
                                  Exit f w3 \<Rightarrow> Exit f w3
                                | Done u w3 \<Rightarrow>
                                    (case moveFileToWatchedDir (hd fansubFileNames) (files w3) of
                                       Inl e \<Rightarrow> Exit (RelocationFailure e) w3
                                     | Inr wd2 \<Rightarrow> Done () (w3\<lparr>files := wd2\<rparr>))))))"

section \<open>Notions of the specification\<close>

text \<open>
  \<open>hay\<close> contains \<open>needle\<close> case-insensitively: after folding both to lower case, the
  needle is a contiguous part of the hay.
\<close>

definition containsIgnoringCase :: "string \<Rightarrow> string \<Rightarrow> bool" where
  "containsIgnoringCase hay needle = sublist (toLowerCase needle) (toLowerCase hay)"

text \<open>How a run ended, and the state it left.\<close>

fun exitOf :: "'a outcome \<Rightarrow> fatal option" where
  "exitOf (Exit f w) = Some f"
| "exitOf (Done x w) = None"

fun worldOf :: "'a outcome \<Rightarrow> World" where
  "worldOf (Exit f w) = w"
| "worldOf (Done x w) = w"

text \<open>A name starts with a bracketed tag: \<open>[\<close>, one or more tag characters, \<open>]\<close>.\<close>

definition startsWithTag :: "string \<Rightarrow> bool" where
  "startsWithTag name =
     (\<exists>tag rest. tag \<noteq> [] \<and> list_all isTagChar tag \<and> name = ''['' @ tag @ '']'' @ rest)"

text \<open>
  The file filter as the specification words it: a bracketed tag at the start, the
  search term as a case-insensitive substring, and the rendered episode token as a
  substring.
\<close>

definition specKeeps :: "string \<Rightarrow> string \<Rightarrow> string \<Rightarrow> bool" where
  "specKeeps searchTerm epNumStr name =
     (startsWithTag name \<and> containsIgnoringCase name searchTerm
      \<and> sublist (if length epNumStr = 1 then ''- 0'' @ epNumStr else ''- '' @ epNumStr) name)"

text \<open>
  The references held by the cache, and the shape the data model gives a state: the
  objects of the cache exist (their references lie below the next free one) and
  \<open>libraryId\<close> is a key of the cache.
\<close>

definition cacheRefs :: "World \<Rightarrow> ref list" where
  "cacheRefs w = [r. Some r \<leftarrow> cache w]"

definition wellFormed :: "World \<Rightarrow> bool" where
  "wellFormed w =
     ((\<forall>r \<in> set (cacheRefs w). r < nextRef w)
      \<and> distinct (map (\<lambda>r. libID (objects w r)) (cacheRefs w)))"

text \<open>
  The cache search as the specification words it: the term is the remembered binding of
  the entry, if there is one, and the episode name otherwise; an entry matches when the
  term is a case-insensitive substring of one of its titles or synonyms.
\<close>

definition specSearchTerm :: "string \<Rightarrow> World \<Rightarrow> ref \<Rightarrow> string" where
  "specSearchTerm epName w r =
     (case fileBindings w (libID (objects w r)) of Some b \<Rightarrow> b | None \<Rightarrow> epName)"

definition specEntryMatches :: "string \<Rightarrow> KitsuCacheItem \<Rightarrow> bool" where
  "specEntryMatches term a =
     (containsIgnoringCase (jpTitle a) term \<or> containsIgnoringCase (enTitle a) term
      \<or> list_ex (\<lambda>s. containsIgnoringCase s term) (synonyms a))"

text \<open>
  The bindings as the data model has them: lower-case strings. The configuration starts
  without bindings, and the one place that writes a binding writes a lower-cased title.
\<close>

definition bindingsLower :: "World \<Rightarrow> bool" where
  "bindingsLower w = (\<forall>ident b. fileBindings w ident = Some b \<longrightarrow> toLowerCase b = b)"

section \<open>Example states\<close>

definition frieren :: KitsuCacheItem where
  "frieren = \<lparr>libID = ''101'', jpTitle = ''Sousou no Frieren'',
               enTitle = ''Frieren - Beyond Journeys End'', synonyms = [''Frieren at the Funeral''],
               epProgress = 27, epCount = 28\<rparr>"

definition bocchi :: KitsuCacheItem where
  "bocchi = \<lparr>libID = ''102'', jpTitle = ''Bocchi the Rock'', enTitle = [], synonyms = [],
              epProgress = 3, epCount = 12\<rparr>"

definition library :: World where
  "library = \<lparr>objects = (\<lambda>r. if r = 0 then frieren else bocchi), nextRef = 2,
               cache = [Some 0, Some 1], fileBindings = Map.empty, saved = None, requests = [],
               files = Some (Dir [(''[Group] Sousou no Frieren - 28.mkv'', File 11),
                                  (''[Group] Bocchi the Rock - 04.mkv'', File 12)])\<rparr>"

text \<open>A remote that confirms the progress it is sent and knows the given episode count.\<close>

definition remote :: "int option \<Rightarrow> string \<Rightarrow> LibPatch \<Rightarrow> string + int \<times> int option" where
  "remote count url body =
     (case data_attributes_progress body of
        NaN \<Rightarrow> Inl ''422 Unprocessable Entity''
      | Num n \<Rightarrow> Inr (n, count))"

text \<open>
  A parser that hands its caller the data half of what the \<open>parseFansubFilename\<close> among
  the sources returns.
\<close>

definition releaseData :: parser where
  "releaseData name = (case parseFansubFilename name of Inl failure \<Rightarrow> None | Inr d \<Rightarrow> Some d)"

text \<open>The example library with a binding remembered from a differently named file.\<close>

definition boundLibrary :: World where
  "boundLibrary = library\<lparr>fileBindings := [''101'' \<mapsto> ''frieren beyond journeys end'']\<rparr>"




section \<open>Properties of the file name parser\<close>

lemma str_includes_sublist: "str_includes hay needle \<longleftrightarrow> sublist needle hay"
  by (induction hay) (simp_all add: sublist_Cons_right)

lemma toLowerCase_batch:
  "toLowerCase ''(batch)'' = ''(batch)''" "toLowerCase ''[batch]'' = ''[batch]''"
  by code_simp+

lemma messages_differ: "batchMessage \<noteq> otherGroupMessage"
  by (simp add: batchMessage_def otherGroupMessage_def)

text \<open>
  C5. A name that the pattern does not match yields the failure half of the pair, with
  the name in it; its message is the batch message exactly when the name contains
  \<open>(batch)\<close> or \<open>[batch]\<close> case-insensitively, and the message about the release group
  otherwise; the two messages differ.
\<close>

theorem parse_failure_kind:
  "fansubRegEx_exec name = None \<Longrightarrow>
     parseFansubFilename name =
       Inl \<lparr>parseError = (if containsIgnoringCase name ''(batch)'' \<or> containsIgnoringCase name ''[batch]''
                           then batchMessage else otherGroupMessage),
            fileName = name\<rparr>
     \<and> batchMessage \<noteq> otherGroupMessage"
  by (simp add: parseFansubFilename_def containsIgnoringCase_def toLowerCase_batch
        str_includes_sublist messages_differ)

text \<open>The batch release of the specification is such a name, and gets the batch message.\<close>

theorem parse_failure_kind_witness:
  "fansubRegEx_exec ''[Group] Show Title (Batch).mkv'' = None
   \<and> parseFansubFilename ''[Group] Show Title (Batch).mkv''
       = Inl \<lparr>parseError = batchMessage, fileName = ''[Group] Show Title (Batch).mkv''\<rparr>
   \<and> batchMessage \<noteq> otherGroupMessage"
proof -
  have h: "fansubRegEx_exec ''[Group] Show Title (Batch).mkv'' = None"
    by code_simp
  have c: "containsIgnoringCase ''[Group] Show Title (Batch).mkv'' ''(batch)''"
    unfolding containsIgnoringCase_def str_includes_sublist [symmetric] by code_simp
  from parse_failure_kind [OF h] c h show ?thesis by simp
qed

text \<open>
  C8. \<open>[Group] Show Title - 07.mkv\<close> parses to episode 7 of \<open>Show Title\<close> by \<open>Group\<close>;
  and whenever the title group of a match ends in the separator \<open>\<^verbatim>\<open> -\<close>\<close>, the title
  handed back is the text before that separator.
\<close>

theorem parse_show_title:
  "parseFansubFilename ''[Group] Show Title - 07.mkv''
     = Inr \<lparr>FansubFilenameData.fansub = ''Group'', title = ''Show Title'', epNum = Num 7,
            paddedEpNum = ''07'', season = None\<rparr>
   \<and> (\<forall>name p t. fansubRegEx_exec name = Some p \<and> Parts.title p = t @ '' -''
        \<longrightarrow> (\<exists>d. parseFansubFilename name = Inr d \<and> FansubFilenameData.title d = t))"
proof
  show "parseFansubFilename ''[Group] Show Title - 07.mkv''
     = Inr \<lparr>FansubFilenameData.fansub = ''Group'', title = ''Show Title'', epNum = Num 7,
            paddedEpNum = ''07'', season = None\<rparr>"
    by code_simp
next
  show "\<forall>name p t. fansubRegEx_exec name = Some p \<and> Parts.title p = t @ '' -''
        \<longrightarrow> (\<exists>d. parseFansubFilename name = Inr d \<and> FansubFilenameData.title d = t)"
    by (auto simp: parseFansubFilename_def serializeFansubFilename_def Let_def split: prod.splits)
qed

theorem parse_show_title_witness:
  "fansubRegEx_exec ''[Group] Show Title - 07.mkv''
     = Some \<lparr>Parts.fansub = ''Group'', title = ''Show Title'' @ '' -'', seasonP = None,
             epNumP = ''07'', seasonAlt_epNumAlt = None\<rparr>
   \<and> (\<exists>d. parseFansubFilename ''[Group] Show Title - 07.mkv'' = Inr d
          \<and> FansubFilenameData.title d = ''Show Title'')"
proof -
  have h: "fansubRegEx_exec ''[Group] Show Title - 07.mkv''
     = Some \<lparr>Parts.fansub = ''Group'', title = ''Show Title'' @ '' -'', seasonP = None,
             epNumP = ''07'', seasonAlt_epNumAlt = None\<rparr>"
    by code_simp
  from parse_show_title
  have "\<forall>name p t. fansubRegEx_exec name = Some p \<and> Parts.title p = t @ '' -''
        \<longrightarrow> (\<exists>d. parseFansubFilename name = Inr d \<and> FansubFilenameData.title d = t)" ..
  with h show ?thesis by (metis Parts.select_convs(2))
qed

section \<open>Properties of the candidate file filter\<close>

lemma set_greedy:
  "set (greedy p lo hi s)
     = {(take n s, drop n s) | n. lo \<le> n \<and> n \<le> hi \<and> n \<le> length (takeWhile p s)}"
  by (auto simp: greedy_def)

lemma oneOf_nonempty: "oneOf p s \<noteq> [] \<longleftrightarrow> (\<exists>c r. s = c # r \<and> p c)"
  by (cases s) (simp_all add: oneOf_def)

lemma tagPrefix_Nil: "tagPrefix [] = []"
  by (simp add: tagPrefix_def oneOf_def)

lemma tagPrefix_Cons:
  "tagPrefix (c # r1) =
     (if c = CHR ''['' then
        concat (map (\<lambda>(tag, r2). map (\<lambda>(e, r3). (tag, r3)) (oneOf (\<lambda>c. c = CHR '']'') r2))
                 (greedy isTagChar 1 (length r1) r1))
      else [])"
  by (simp add: tagPrefix_def oneOf_def split_def)

lemma tagPrefix_nonempty:
  "tagPrefix s \<noteq> [] \<longleftrightarrow>
     (\<exists>n r1 r3. s = CHR ''['' # r1 \<and> 1 \<le> n \<and> n \<le> length (takeWhile isTagChar r1)
                 \<and> drop n r1 = CHR '']'' # r3)"
proof (cases s)
  case Nil
  then show ?thesis by (simp add: tagPrefix_Nil)
next
  case (Cons c r1)
  show ?thesis
  proof (cases "c = CHR ''[''")
    case False
    then show ?thesis using Cons by (simp add: tagPrefix_Cons)
  next
    case True
    have "tagPrefix s \<noteq> [] \<longleftrightarrow>
            (\<exists>x \<in> set (greedy isTagChar 1 (length r1) r1). oneOf (\<lambda>c. c = CHR '']'') (snd x) \<noteq> [])"
      unfolding Cons tagPrefix_Cons using True by (auto simp: split_def)
    also have "\<dots> \<longleftrightarrow> (\<exists>n. 1 \<le> n \<and> n \<le> length r1 \<and> n \<le> length (takeWhile isTagChar r1)
                         \<and> (\<exists>r3. drop n r1 = CHR '']'' # r3))" (is "?L \<longleftrightarrow> ?R")
    proof
      assume ?L
      then obtain x where x: "x \<in> set (greedy isTagChar 1 (length r1) r1)"
        and ne: "oneOf (\<lambda>c. c = CHR '']'') (snd x) \<noteq> []" ..
      from x obtain n where n: "x = (take n r1, drop n r1)" "1 \<le> n" "n \<le> length r1"
        "n \<le> length (takeWhile isTagChar r1)"
        unfolding set_greedy by auto
      from ne n(1) obtain r3 where "drop n r1 = CHR '']'' # r3"
        unfolding oneOf_nonempty by auto
      with n show ?R by auto
    next
      assume ?R
      then obtain n r3 where n: "1 \<le> n" "n \<le> length r1" "n \<le> length (takeWhile isTagChar r1)"
        "drop n r1 = CHR '']'' # r3" by auto
      then have "(take n r1, drop n r1) \<in> set (greedy isTagChar 1 (length r1) r1)"
        unfolding set_greedy by auto
      moreover have "oneOf (\<lambda>c. c = CHR '']'') (snd (take n r1, drop n r1)) \<noteq> []"
        unfolding oneOf_nonempty using n(4) by simp
      ultimately show ?L ..
    qed
    also have "\<dots> \<longleftrightarrow> (\<exists>n r3. 1 \<le> n \<and> n \<le> length (takeWhile isTagChar r1)
                                \<and> drop n r1 = CHR '']'' # r3)"
      using length_takeWhile_le [of isTagChar r1] by (meson order_trans)
    finally show ?thesis using Cons True by simp
  qed
qed

lemma not_tag_bracket: "\<not> isTagChar CHR '']''"
  by code_simp

text \<open>The pattern \<open>^\[([\w|\d|\s-]+)\]\<close> matches exactly the names that start with a tag.\<close>

lemma tagPrefix_startsWithTag: "tagPrefix name \<noteq> [] \<longleftrightarrow> startsWithTag name"
proof
  assume "tagPrefix name \<noteq> []"
  then obtain n r1 r3 where *: "name = CHR ''['' # r1" "1 \<le> n"
     "n \<le> length (takeWhile isTagChar r1)" "drop n r1 = CHR '']'' # r3"
    unfolding tagPrefix_nonempty by (elim exE conjE)
  have le: "n \<le> length r1" using *(3) length_takeWhile_le [of isTagChar r1] by linarith
  have "take n (takeWhile isTagChar r1 @ dropWhile isTagChar r1) = take n (takeWhile isTagChar r1)"
    using *(3) by (simp only: take_append diff_is_0_eq' take_0 append_Nil2)
  then have tk: "take n r1 = take n (takeWhile isTagChar r1)"
    by (simp only: takeWhile_dropWhile_id)
  have "set (take n r1) \<subseteq> set (takeWhile isTagChar r1)"
    unfolding tk by (rule set_take_subset)
  then have all: "list_all isTagChar (take n r1)"
    by (auto simp: list_all_iff dest: set_takeWhileD)
  have ne: "take n r1 \<noteq> []" using *(2) le by (cases r1) auto
  have "name = CHR ''['' # (take n r1 @ drop n r1)" using *(1) by simp
  then have "name = ''['' @ take n r1 @ '']'' @ r3"
    unfolding *(4) by simp
  with all ne show "startsWithTag name" unfolding startsWithTag_def by blast
next
  assume "startsWithTag name"
  then obtain tag rest where t: "tag \<noteq> []" "list_all isTagChar tag"
    "name = ''['' @ tag @ '']'' @ rest"
    unfolding startsWithTag_def by blast
  have tw: "takeWhile isTagChar (tag @ '']'' @ rest) = tag"
    using t(2) not_tag_bracket by (simp add: list_all_iff)
  have "1 \<le> length tag" using t(1) by (cases tag) auto
  moreover have "length tag \<le> length (takeWhile isTagChar (tag @ '']'' @ rest))"
    unfolding tw by simp
  moreover have "drop (length tag) (tag @ '']'' @ rest) = CHR '']'' # rest" by simp
  moreover have "name = CHR ''['' # (tag @ '']'' @ rest)" using t(3) by simp
  ultimately show "tagPrefix name \<noteq> []"
    unfolding tagPrefix_nonempty by blast
qed

lemma keepsName_iff:
  "keepsName searchTerm epNumStr name \<longleftrightarrow>
     startsWithTag name \<and> sublist searchTerm (toLowerCase name)
     \<and> sublist (if length epNumStr = 1 then ''- 0'' @ epNumStr else ''- '' @ epNumStr) name"
  by (simp add: keepsName_def episodeSyntax_def tagPrefix_startsWithTag str_includes_sublist)

lemma keepsName_lower_term:
  "toLowerCase searchTerm = searchTerm \<Longrightarrow>
     keepsName searchTerm epNumStr name = specKeeps searchTerm epNumStr name"
  by (simp add: keepsName_iff specKeeps_def containsIgnoringCase_def)

lemma regular_files: "map fst (filter isFile listing) = [name. (name, File i) \<leftarrow> listing]"
proof (induction listing)
  case Nil
  then show ?case by simp
next
  case (Cons entry listing)
  obtain name kind where e: "entry = (name, kind)" by (cases entry)
  from Cons show ?case unfolding e by (cases kind) (simp_all add: isFile_def)
qed

text \<open>Lower-casing changes nothing in a lower-cased string, nor in a part of one.\<close>

lemma lowerChar_idem: "lowerChar (lowerChar c) = lowerChar c"
proof -
  have "code (char_of (code c + 32)) = code c + 32" if "code c \<le> 222"
    using that by (simp add: code_def)
  then show ?thesis by (auto simp: lowerChar_def)
qed

lemma part_of_lower:
  assumes "sublist t (toLowerCase s)"
  shows "toLowerCase t = t"
proof -
  from assms have "set t \<subseteq> set (toLowerCase s)" by (rule set_mono_sublist)
  then have "\<forall>c \<in> set t. lowerChar c = c"
    by (auto simp: toLowerCase_def lowerChar_idem)
  then show ?thesis unfolding toLowerCase_def by (simp add: map_idI)
qed

text \<open>
  The one call of the filter is in \<open>watchAnime\<close>, after the cache search found an entry
  for the episode name: the call's term is the entry's binding, or the episode name when
  it has none. An episode name that finds an entry is a part of a lower-cased title, so
  with lower-case bindings the filter only ever gets a lower-case term.
\<close>

lemma found_name_is_lower:
  assumes "r \<in> set (cachedAnime epName w)"
  shows "toLowerCase epName = epName"
proof -
  from assms have "titleIncludes epName (objects w r)"
    by (auto simp: cachedAnime_def animeCache_def split: option.splits)
  then obtain t where "sublist epName (toLowerCase t)"
    by (auto simp: titleIncludes_def str_includes_sublist list_ex_iff)
  then show ?thesis by (rule part_of_lower)
qed

lemma call_term_is_lower:
  assumes "bindingsLower w" and "r \<in> set (cachedAnime epName w)"
  shows "toLowerCase (case fileBindings w ident of Some t \<Rightarrow> t | None \<Rightarrow> epName)
           = (case fileBindings w ident of Some t \<Rightarrow> t | None \<Rightarrow> epName)"
  using assms(1) found_name_is_lower [OF assms(2)]
  by (auto simp: bindingsLower_def split: option.splits)

section \<open>Properties of the file relocator\<close>

lemma directoryOf_withEntries:
  "directoryOf p = Inr ws \<Longrightarrow> directoryOf (withEntries p ws') = Inr ws'"
  by (induction p rule: directoryOf.induct) simp_all

lemma existsSync_after_mkdir: "mkdirSync_watched wd = Inr wd' \<Longrightarrow> existsSync_watched wd'"
  by (auto simp: mkdirSync_watched_def existsSync_watched_def map_add_def directoryOf_withEntries
           split: option.splits sum.splits if_splits)

lemma tryCreateWatchedDir_exists: "tryCreateWatchedDir wd = Inr wd' \<Longrightarrow> existsSync_watched wd'"
  by (auto simp: tryCreateWatchedDir_def dest: existsSync_after_mkdir split: if_splits)

text \<open>
  The move of a regular file of the working directory when \<open>watched\<close> is or leads to a
  directory that has no directory of the file's name.
\<close>

lemma rename_regular_file:
  assumes "map_of es name = Some (File i)" and "map_of es ''watched'' = Some p"
    and "directoryOf p = Inr ws" and "\<And>cs. map_of ws name \<noteq> Some (Dir cs)"
  shows "renameSync_into_watched name (Some (Dir es))
           = (if \<exists>t. map_of ws name = Some t \<and> inode t = Some i then Inr (Some (Dir es))
              else Inr (Some (Dir (AList.update ''watched'' (withEntries p (AList.update name (File i) ws))
                                     (AList.delete name es)))))"
proof -
  have ne: "name \<noteq> ''watched''" using assms(1,2,3) by auto
  show ?thesis
  proof (cases "map_of ws name")
    case None
    then show ?thesis using assms(1,2,3) ne by (simp add: renameSync_into_watched_def)
  next
    case (Some t)
    with assms(4) have nd: "\<not> isDirectory t" by (cases t) auto
    show ?thesis
      using assms(1,2,3) ne Some nd by (auto simp: renameSync_into_watched_def)
  qed
qed

text \<open>
  C9. When \<open>watched\<close> exists, \<open>tryCreateWatchedDir\<close> changes nothing and raises nothing;
  only when it does not exist is \<open>mkdirSync\<close> reached. After a run that raised nothing
  the directory exists, so a second run raises nothing and changes nothing. A regular
  file of the working directory is renamed to its own name in the directory that
  \<open>watched\<close> is or leads to (unless a directory has that name there): afterwards that
  directory has the file under this name, the working directory has no entry of
  the name, and every other entry of both directories is as before; only when the name
  in \<open>watched\<close> is already a hard link of the file does the rename leave everything as
  it is.
\<close>

theorem relocation:
  "(existsSync_watched wd \<longrightarrow> tryCreateWatchedDir wd = Inr wd)
   \<and> (\<not> existsSync_watched wd \<longrightarrow> tryCreateWatchedDir wd = mkdirSync_watched wd)
   \<and> (\<forall>wd'. tryCreateWatchedDir wd = Inr wd'
         \<longrightarrow> existsSync_watched wd' \<and> tryCreateWatchedDir wd' = Inr wd')
   \<and> (wd = Some (Dir es) \<and> map_of es name = Some (File i)
         \<and> map_of es ''watched'' = Some p \<and> directoryOf p = Inr ws
         \<and> (\<forall>cs. map_of ws name \<noteq> Some (Dir cs))
         \<longrightarrow> (if \<exists>t. map_of ws name = Some t \<and> inode t = Some i
              then moveFileToWatchedDir name wd = Inr wd
              else \<exists>es' p' ws'. moveFileToWatchedDir name wd = Inr (Some (Dir es'))
                  \<and> map_of es' name = None
                  \<and> map_of es' ''watched'' = Some p'
                  \<and> directoryOf p' = Inr ws'
                  \<and> map_of ws' name = Some (File i)
                  \<and> (\<forall>n. n \<noteq> name \<and> n \<noteq> ''watched'' \<longrightarrow> map_of es' n = map_of es n)
                  \<and> (\<forall>n. n \<noteq> name \<longrightarrow> map_of ws' n = map_of ws n)))"
proof (intro conjI allI impI)
  assume "existsSync_watched wd"
  then show "tryCreateWatchedDir wd = Inr wd" by (simp add: tryCreateWatchedDir_def)
next
  assume "\<not> existsSync_watched wd"
  then show "tryCreateWatchedDir wd = mkdirSync_watched wd" by (simp add: tryCreateWatchedDir_def)
next
  fix wd' assume "tryCreateWatchedDir wd = Inr wd'"
  then show "existsSync_watched wd'" by (rule tryCreateWatchedDir_exists)
next
  fix wd' assume "tryCreateWatchedDir wd = Inr wd'"
  then have "existsSync_watched wd'" by (rule tryCreateWatchedDir_exists)
  then show "tryCreateWatchedDir wd' = Inr wd'" by (simp add: tryCreateWatchedDir_def)
next
  assume a: "wd = Some (Dir es) \<and> map_of es name = Some (File i)
               \<and> map_of es ''watched'' = Some p \<and> directoryOf p = Inr ws
               \<and> (\<forall>cs. map_of ws name \<noteq> Some (Dir cs))"
  then have wd: "wd = Some (Dir es)" and src: "map_of es name = Some (File i)"
    and par: "map_of es ''watched'' = Some p" and dir: "directoryOf p = Inr ws"
    and nodir: "\<And>cs. map_of ws name \<noteq> Some (Dir cs)"
    by simp_all
  from src par dir have ne: "name \<noteq> ''watched''" by auto
  let ?ws' = "AList.update name (File i) ws"
  let ?p' = "withEntries p ?ws'"
  let ?es' = "AList.update ''watched'' ?p' (AList.delete name es)"
  note r = rename_regular_file [OF src par dir nodir]
  show "if \<exists>t. map_of ws name = Some t \<and> inode t = Some i
        then moveFileToWatchedDir name wd = Inr wd
        else \<exists>es' p' ws'. moveFileToWatchedDir name wd = Inr (Some (Dir es'))
                  \<and> map_of es' name = None
                  \<and> map_of es' ''watched'' = Some p'
                  \<and> directoryOf p' = Inr ws'
                  \<and> map_of ws' name = Some (File i)
                  \<and> (\<forall>n. n \<noteq> name \<and> n \<noteq> ''watched'' \<longrightarrow> map_of es' n = map_of es n)
                  \<and> (\<forall>n. n \<noteq> name \<longrightarrow> map_of ws' n = map_of ws n)"
  proof (cases "\<exists>t. map_of ws name = Some t \<and> inode t = Some i")
    case True
    have "moveFileToWatchedDir name wd = Inr wd"
      unfolding moveFileToWatchedDir_def wd r if_P [OF True] ..
    then show ?thesis unfolding if_P [OF True] .
  next
    case False
    have 0: "moveFileToWatchedDir name wd = Inr (Some (Dir ?es'))"
      unfolding moveFileToWatchedDir_def wd r if_not_P [OF False] ..
    have 1: "map_of ?es' name = None"
      using ne by (simp add: update_conv' delete_conv')
    have 2: "map_of ?es' ''watched'' = Some ?p'"
      by (simp add: update_conv')
    have 3: "directoryOf ?p' = Inr ?ws'"
      using dir by (rule directoryOf_withEntries)
    have 4: "map_of ?ws' name = Some (File i)"
      by (simp add: update_conv')
    have 5: "\<forall>n. n \<noteq> name \<and> n \<noteq> ''watched'' \<longrightarrow> map_of ?es' n = map_of es n"
      by (simp add: update_conv' delete_conv')
    have 6: "\<forall>n. n \<noteq> name \<longrightarrow> map_of ?ws' n = map_of ws n"
      by (simp add: update_conv')
    have "\<exists>es' p' ws'. moveFileToWatchedDir name wd = Inr (Some (Dir es'))
                  \<and> map_of es' name = None
                  \<and> map_of es' ''watched'' = Some p'
                  \<and> directoryOf p' = Inr ws'
                  \<and> map_of ws' name = Some (File i)
                  \<and> (\<forall>n. n \<noteq> name \<and> n \<noteq> ''watched'' \<longrightarrow> map_of es' n = map_of es n)
                  \<and> (\<forall>n. n \<noteq> name \<longrightarrow> map_of ws' n = map_of ws n)"
      by (rule exI [of _ ?es'], rule exI [of _ ?p'], rule exI [of _ ?ws'])
         (intro conjI 0 1 2 3 4 5 6)
    then show ?thesis unfolding if_not_P [OF False] .
  qed
qed

text \<open>
  A first run on a directory with one episode file creates \<open>watched\<close>; a second run on
  the result leaves it as it is; the move puts the file below \<open>watched\<close>. A dangling
  link of the name \<open>watched\<close> does not exist for the check and is in the way of the
  creation. A file moves through a link \<open>watched\<close> into the directory the link leads to,
  and stays when it is there already.
\<close>

theorem relocation_witness:
  "\<not> existsSync_watched (Some (Dir [(''[G] A - 07.mkv'', File 1)]))
   \<and> tryCreateWatchedDir (Some (Dir [(''[G] A - 07.mkv'', File 1)]))
       = Inr (Some (Dir [(''[G] A - 07.mkv'', File 1), (''watched'', Dir [])]))
   \<and> existsSync_watched (Some (Dir [(''[G] A - 07.mkv'', File 1), (''watched'', Dir [])]))
   \<and> tryCreateWatchedDir (Some (Dir [(''[G] A - 07.mkv'', File 1), (''watched'', Dir [])]))
       = Inr (Some (Dir [(''[G] A - 07.mkv'', File 1), (''watched'', Dir [])]))
   \<and> moveFileToWatchedDir ''[G] A - 07.mkv''
        (Some (Dir [(''[G] A - 07.mkv'', File 1), (''watched'', Dir [])]))
       = Inr (Some (Dir [(''watched'', Dir [(''[G] A - 07.mkv'', File 1)])]))
   \<and> (\<exists>es' p' ws'. moveFileToWatchedDir ''[G] A - 07.mkv''
                       (Some (Dir [(''[G] A - 07.mkv'', File 1), (''watched'', Dir [])]))
                     = Inr (Some (Dir es'))
                  \<and> map_of es' ''[G] A - 07.mkv'' = None
                  \<and> map_of es' ''watched'' = Some p'
                  \<and> directoryOf p' = Inr ws'
                  \<and> map_of ws' ''[G] A - 07.mkv'' = Some (File 1))
   \<and> \<not> existsSync_watched (Some (Dir [(''[G] A - 07.mkv'', File 1), (''watched'', Link 2 None)]))
   \<and> tryCreateWatchedDir (Some (Dir [(''[G] A - 07.mkv'', File 1), (''watched'', Link 2 None)]))
       = Inl EEXIST
   \<and> moveFileToWatchedDir ''[G] A - 07.mkv''
        (Some (Dir [(''[G] A - 07.mkv'', File 1), (''watched'', Link 2 (Some (Dir [])))]))
       = Inr (Some (Dir [(''watched'', Link 2 (Some (Dir [(''[G] A - 07.mkv'', File 1)])))]))
   \<and> moveFileToWatchedDir ''[G] A - 07.mkv''
        (Some (Dir [(''[G] A - 07.mkv'', File 1), (''watched'', Dir [(''[G] A - 07.mkv'', File 1)])]))
       = Inr (Some (Dir [(''[G] A - 07.mkv'', File 1), (''watched'', Dir [(''[G] A - 07.mkv'', File 1)])]))"
proof -
  let ?n = "''[G] A - 07.mkv''"
  let ?d0 = "Some (Dir [(?n, File 1)])"
  let ?d1 = "Some (Dir [(?n, File 1), (''watched'', Dir [])])"
  let ?d2 = "Some (Dir [(?n, File 1), (''watched'', Link 2 None)])"
  let ?d3 = "Some (Dir [(?n, File 1), (''watched'', Link 2 (Some (Dir [])))])"
  let ?d4 = "Some (Dir [(?n, File 1), (''watched'', Dir [(?n, File 1)])])"
  note R2 = relocation [THEN conjunct2, THEN conjunct1, THEN mp]
  note R3 = relocation [THEN conjunct2, THEN conjunct2, THEN conjunct1, THEN spec, THEN mp]
  have n0: "\<not> existsSync_watched ?d0" by (simp add: existsSync_watched_def)
  have c0: "tryCreateWatchedDir ?d0 = Inr ?d1"
    unfolding R2 [OF n0] by (simp add: mkdirSync_watched_def)
  from R3 [OF c0] have e1: "existsSync_watched ?d1" and c1: "tryCreateWatchedDir ?d1 = Inr ?d1"
    by simp_all
  have n2: "\<not> existsSync_watched ?d2" by (simp add: existsSync_watched_def)
  have c2: "tryCreateWatchedDir ?d2 = Inl EEXIST"
    unfolding R2 [OF n2] by (simp add: mkdirSync_watched_def)
  have m1: "moveFileToWatchedDir ?n ?d1 = Inr (Some (Dir [(''watched'', Dir [(?n, File 1)])]))"
    by (simp add: moveFileToWatchedDir_def renameSync_into_watched_def)
  have m3: "moveFileToWatchedDir ?n ?d3
              = Inr (Some (Dir [(''watched'', Link 2 (Some (Dir [(?n, File 1)])))]))"
    by (simp add: moveFileToWatchedDir_def renameSync_into_watched_def)
  have h4: "?d4 = Some (Dir [(?n, File 1), (''watched'', Dir [(?n, File 1)])])
             \<and> map_of [(?n, File 1), (''watched'', Dir [(?n, File 1)])] ?n = Some (File 1)
             \<and> map_of [(?n, File 1), (''watched'', Dir [(?n, File 1)])] ''watched'' = Some (Dir [(?n, File 1)])
             \<and> directoryOf (Dir [(?n, File 1)]) = Inr [(?n, File 1)]
             \<and> (\<forall>cs. map_of [(?n, File 1)] ?n \<noteq> Some (Dir cs))"
    by simp
  have l4: "\<exists>t. map_of [(?n, File 1)] ?n = Some t \<and> inode t = Some 1" by simp
  note r4 = relocation [where wd = "?d4" and name = "?n"
               and es = "[(?n, File 1), (''watched'', Dir [(?n, File 1)])]"
               and ws = "[(?n, File 1)]" and p = "Dir [(?n, File 1)]" and i = 1,
             THEN conjunct2, THEN conjunct2, THEN conjunct2, THEN mp, OF h4, unfolded if_P [OF l4]]
  have h1: "?d1 = Some (Dir [(?n, File 1), (''watched'', Dir [])])
             \<and> map_of [(?n, File 1), (''watched'', Dir [])] ?n = Some (File 1)
             \<and> map_of [(?n, File 1), (''watched'', Dir [])] ''watched'' = Some (Dir [])
             \<and> directoryOf (Dir []) = Inr []
             \<and> (\<forall>cs. map_of [] ?n \<noteq> Some (Dir cs))"
    by simp
  have l1: "\<not> (\<exists>t. map_of [] ?n = Some t \<and> inode t = Some 1)" by simp
  note r1 = relocation [where wd = "?d1" and name = "?n"
               and es = "[(?n, File 1), (''watched'', Dir [])]"
               and ws = "[]" and p = "Dir []" and i = 1,
             THEN conjunct2, THEN conjunct2, THEN conjunct2, THEN mp, OF h1, unfolded if_not_P [OF l1]]
  from r1 have x1: "\<exists>es' p' ws'. moveFileToWatchedDir ?n ?d1 = Inr (Some (Dir es'))
                  \<and> map_of es' ?n = None
                  \<and> map_of es' ''watched'' = Some p'
                  \<and> directoryOf p' = Inr ws'
                  \<and> map_of ws' ?n = Some (File 1)"
    by (elim exE conjE) (intro exI conjI, assumption+)
  show ?thesis by (intro conjI n0 c0 e1 c1 m1 x1 n2 c2 m3 r4)
qed

section \<open>Properties of the progress synchronizer\<close>

lemma Config_save_simps [simp]:
  "objects (Config_save w) = objects w" "cache (Config_save w) = cache w"
  "fileBindings (Config_save w) = fileBindings w" "requests (Config_save w) = requests w"
  "files (Config_save w) = files w" "nextRef (Config_save w) = nextRef w"
  "saved (Config_save w) = Some (map (map_option (objects w)) (cache w), fileBindings w)"
  by (simp_all add: Config_save_def)

lemma removeAnimeFromCache_simps [simp]:
  "objects (removeAnimeFromCache a w) = objects w"
  "fileBindings (removeAnimeFromCache a w) = fileBindings w"
  "requests (removeAnimeFromCache a w) = requests w"
  "files (removeAnimeFromCache a w) = files w"
  "nextRef (removeAnimeFromCache a w) = nextRef w"
  "saved (removeAnimeFromCache a w) = saved w"
  by (simp_all add: removeAnimeFromCache_def)

text \<open>The synchronizer, its steps spelled out on the state.\<close>

lemma saveAnimeProgress_unfold:
  fixes opt w updateAnime parse
  defines "a \<equiv> anime opt"
  defines "ident \<equiv> libID (objects w a)"
  defines "url \<equiv> ''https://kitsu.io/api/edge/library-entries/'' @ ident"
  defines "body \<equiv> \<lparr>data_id = ident, data_type = ''library-entries'',
                     data_attributes_progress =
                       orElse (forcedEpNum opt) (ProgressOptions.epNum opt)\<rparr>"
  defines "w1 \<equiv> w\<lparr>requests := requests w @ [(url, body)]\<rparr>"
  shows "saveAnimeProgress parse updateAnime opt w =
     (case updateAnime url body of
        Inl failure \<Rightarrow> Exit (RemoteUpdateFailure failure) w1
      | Inr (progress, episodeCount) \<Rightarrow>
          (let w3 = w1\<lparr>objects := (objects w)(a := (objects w a)
                          \<lparr>epProgress := progress,
                           epCount := nullish episodeCount 0\<rparr>)\<rparr>
           in if progress > 0 \<and> Some progress = episodeCount then
                Done () (Config_save (removeAnimeFromCache a w3))
              else if \<not> truthyStr (fileBindings w ident) then
                (case parse (ProgressOptions.fileName opt) of
                   None \<Rightarrow> Exit (NoParsedData (ProgressOptions.fileName opt)) w3
                 | Some d \<Rightarrow>
                     Done () (Config_save
                       (w3\<lparr>fileBindings := (fileBindings w)(ident \<mapsto> toLowerCase (FansubFilenameData.title d)),
                           cache := assignIndex (cache w) (cacheIndex opt) a\<rparr>)))
              else Done () (Config_save (w3\<lparr>cache := assignIndex (cache w) (cacheIndex opt) a\<rparr>))))"
  unfolding saveAnimeProgress_def a_def ident_def url_def body_def w1_def
  by (simp add: Let_def buildLibPatchReqArgs_def getFileBinding_def setFileBinding_def
        split: sum.splits prod.splits option.splits)


text \<open>
  C2. Every synchronization sends the remote one request, for the entry's library id,
  whose progress is the forced episode number when that is neither 0 nor \<open>NaN\<close> and
  the file's episode number otherwise. When the remote answers, the entry handed to the
  synchronizer has the confirmed progress as its \<open>epProgress\<close> and the returned episode
  count, or 0 when none came back, as its \<open>epCount\<close>, however the run goes on.
\<close>

theorem sync_request_and_progress:
  "let target = (if forcedEpNum opt \<noteq> NaN \<and> forcedEpNum opt \<noteq> Num 0
                 then forcedEpNum opt else ProgressOptions.epNum opt);
       ident = libID (objects w (anime opt));
       url = ''https://kitsu.io/api/edge/library-entries/'' @ ident;
       body = \<lparr>data_id = ident, data_type = ''library-entries'', data_attributes_progress = target\<rparr>;
       w' = worldOf (saveAnimeProgress parse updateAnime opt w)
   in requests w' = requests w @ [(url, body)]
      \<and> (\<forall>progress episodeCount. updateAnime url body = Inr (progress, episodeCount) \<longrightarrow>
            epProgress (objects w' (anime opt)) = progress
            \<and> epCount (objects w' (anime opt)) = (case episodeCount of None \<Rightarrow> 0 | Some n \<Rightarrow> n))"
proof -
  define ident where "ident = libID (objects w (anime opt))"
  define url where "url = ''https://kitsu.io/api/edge/library-entries/'' @ ident"
  define body where "body = \<lparr>data_id = ident, data_type = ''library-entries'',
     data_attributes_progress =
       orElse (forcedEpNum opt) (ProgressOptions.epNum opt)\<rparr>"
  define w' where "w' = worldOf (saveAnimeProgress parse updateAnime opt w)"
  note u = saveAnimeProgress_unfold [of parse updateAnime opt w, folded ident_def, folded url_def,
      folded body_def]
  have r: "requests w' = requests w @ [(url, body)]"
    unfolding w'_def u by (simp add: Let_def split: sum.splits prod.splits option.splits)
  have p: "epProgress (objects w' (anime opt)) = progress
            \<and> epCount (objects w' (anime opt)) = (case episodeCount of None \<Rightarrow> 0 | Some n \<Rightarrow> n)"
    if "updateAnime url body = Inr (progress, episodeCount)" for progress episodeCount
    unfolding w'_def u that by (simp add: Let_def nullish_def split: sum.splits option.splits)
  from r p show ?thesis
    unfolding Let_def w'_def url_def body_def ident_def truthy_def orElse_def nullish_def by blast
qed

lemma save_completed:
  assumes "updateAnime (''https://kitsu.io/api/edge/library-entries/'' @ libID (objects w (anime opt)))
              \<lparr>data_id = libID (objects w (anime opt)), data_type = ''library-entries'',
               data_attributes_progress =
                 orElse (forcedEpNum opt) (ProgressOptions.epNum opt)\<rparr>
            = Inr (progress, Some progress)"
    and "0 < progress"
  shows "saveAnimeProgress parse updateAnime opt w
           = Done () (Config_save (removeAnimeFromCache (anime opt)
               (w\<lparr>requests := requests w @
                     [(''https://kitsu.io/api/edge/library-entries/'' @ libID (objects w (anime opt)),
                       \<lparr>data_id = libID (objects w (anime opt)), data_type = ''library-entries'',
                        data_attributes_progress =
                         orElse (forcedEpNum opt) (ProgressOptions.epNum opt)\<rparr>)],
                  objects := (objects w)(anime opt :=
                     (objects w (anime opt))\<lparr>epProgress := progress, epCount := progress\<rparr>)\<rparr>)))"
  unfolding saveAnimeProgress_unfold assms(1) using assms(2) by (simp add: nullish_def)

text \<open>
  C1. When the remote confirms a progress above 0 that equals the episode count it
  returns, the synchronization ends normally: the cache has lost every slot whose entry
  has the library id of the synchronized entry (no entry with that id is left, and the
  synchronized entry is not written back), the file bindings are as before, and what
  was persisted is the configuration as it is then.
\<close>

theorem completion_evicts:
  assumes "updateAnime (''https://kitsu.io/api/edge/library-entries/'' @ libID (objects w (anime opt)))
              \<lparr>data_id = libID (objects w (anime opt)), data_type = ''library-entries'',
               data_attributes_progress =
                 orElse (forcedEpNum opt) (ProgressOptions.epNum opt)\<rparr>
            = Inr (progress, Some progress)"
    and "progress > 0"
  shows "\<exists>w'. saveAnimeProgress parse updateAnime opt w = Done () w'
     \<and> cache w' = filter (\<lambda>c. case c of None \<Rightarrow> False
                                | Some r \<Rightarrow> libID (objects w r) \<noteq> libID (objects w (anime opt))) (cache w)
     \<and> (\<forall>r. Some r \<in> set (cache w') \<longrightarrow> libID (objects w' r) \<noteq> libID (objects w (anime opt)))
     \<and> Some (anime opt) \<notin> set (cache w')
     \<and> fileBindings w' = fileBindings w
     \<and> saved w' = Some (map (map_option (objects w')) (cache w'), fileBindings w')"
proof -
  let ?a = "anime opt"
  let ?objs = "(objects w)(?a := (objects w ?a)\<lparr>epProgress := progress, epCount := progress\<rparr>)"
  define w' where "w' = worldOf (saveAnimeProgress parse updateAnime opt w)"
  note c = save_completed [of updateAnime w opt progress parse, OF assms]
  have 0: "saveAnimeProgress parse updateAnime opt w = Done () w'"
    unfolding w'_def c by simp
  have o: "objects w' = ?objs" unfolding w'_def c by simp
  have id: "\<And>r. libID (?objs r) = libID (objects w r)" by simp
  have 1: "cache w' = filter (\<lambda>c. case c of None \<Rightarrow> False
                                | Some r \<Rightarrow> libID (objects w r) \<noteq> libID (objects w ?a)) (cache w)"
    unfolding w'_def c
    by (auto simp: removeAnimeFromCache_def intro!: filter_cong split: option.splits)
  have 2: "\<forall>r. Some r \<in> set (cache w') \<longrightarrow> libID (objects w' r) \<noteq> libID (objects w ?a)"
    unfolding 1 o id by auto
  have 3: "Some ?a \<notin> set (cache w')" unfolding 1 by auto
  have 4: "fileBindings w' = fileBindings w" unfolding w'_def c by simp
  have 5: "saved w' = Some (map (map_option (objects w')) (cache w'), fileBindings w')"
    unfolding w'_def c by simp
  from 0 1 2 3 4 5 show ?thesis by blast
qed


lemma set_cacheRefs: "set (cacheRefs w) = {r. Some r \<in> set (cache w)}"
  by (auto simp: cacheRefs_def split: option.splits)

lemma findIndex_found:
  "\<exists>y \<in> set xs. p y \<Longrightarrow>
     0 \<le> findIndex p xs \<and> nat (findIndex p xs) < length xs \<and> p (xs ! nat (findIndex p xs))"
proof (induction xs)
  case Nil
  then show ?case by simp
next
  case (Cons x xs)
  show ?case
  proof (cases "p x")
    case True
    then show ?thesis by simp
  next
    case False
    with Cons.prems have "\<exists>y \<in> set xs. p y" by auto
    from Cons.IH [OF this] False show ?thesis
      by (simp add: Let_def nat_add_distrib)
  qed
qed

text \<open>
  What the resolver hands on and what a synchronization on it leaves: the objects other
  than the copy, and the cache in one of three shapes.
\<close>

lemma sync_shape:
  assumes "wellFormed w" and "Some r \<in> set (cache w)"
  shows "\<exists>clone i w1. validateCachedAnime [r] w = Done (clone, i) w1
      \<and> clone \<notin> set (cacheRefs w) \<and> objects w1 clone = objects w r \<and> cache w1 = cache w
      \<and> 0 \<le> i \<and> nat i < length (cache w) \<and> cache w ! nat i = Some r
      \<and> (\<forall>parse updateAnime e f name w'.
            w' = worldOf (saveAnimeProgress parse updateAnime
                   \<lparr>anime = clone, cacheIndex = i, epNum = e, forcedEpNum = f, fileName = name\<rparr> w1)
            \<longrightarrow> (\<forall>x. x \<noteq> clone \<longrightarrow> objects w' x = objects w x)
                \<and> (cache w' = cache w \<or> cache w' = (cache w)[nat i := Some clone]
                     \<or> cache w' = [c \<leftarrow> cache w. c \<noteq> None \<and> c \<noteq> Some r]))"
proof -
  define clone where "clone = nextRef w"
  define i where "i = findIndex (\<lambda>c. c = Some r) (cache w)"
  define w1 where "w1 = w\<lparr>objects := (objects w)(clone := objects w r), nextRef := Suc (nextRef w)\<rparr>"
  have v: "validateCachedAnime [r] w = Done (clone, i) w1"
    by (simp add: validateCachedAnime_def structuredClone_def clone_def i_def w1_def)
  have fresh: "clone \<notin> set (cacheRefs w)"
    using assms(1) unfolding wellFormed_def clone_def by auto
  have rc: "r \<noteq> clone" using assms(2) fresh by (auto simp: set_cacheRefs)
  have idx: "0 \<le> i \<and> nat i < length (cache w) \<and> cache w ! nat i = Some r"
    unfolding i_def using findIndex_found [of "cache w" "\<lambda>c. c = Some r"] assms(2) by blast
  have key: "libID (objects w r') = libID (objects w r) \<longleftrightarrow> r' = r"
    if "Some r' \<in> set (cache w)" for r'
  proof -
    have "inj_on (\<lambda>r. libID (objects w r)) (set (cacheRefs w))"
      using assms(1) unfolding wellFormed_def by (simp add: distinct_map)
    moreover have "r' \<in> set (cacheRefs w)" "r \<in> set (cacheRefs w)"
      using that assms(2) by (simp_all add: set_cacheRefs)
    ultimately show ?thesis by (auto dest: inj_onD)
  qed
  have sync: "(\<forall>x. x \<noteq> clone \<longrightarrow> objects w' x = objects w x)
                \<and> (cache w' = cache w \<or> cache w' = (cache w)[nat i := Some clone]
                     \<or> cache w' = [c \<leftarrow> cache w. c \<noteq> None \<and> c \<noteq> Some r])"
    if w': "w' = worldOf (saveAnimeProgress parse updateAnime
                   \<lparr>anime = clone, cacheIndex = i, epNum = e, forcedEpNum = f, fileName = name\<rparr> w1)"
    for parse updateAnime e f name w'
  proof -
    let ?url = "''https://kitsu.io/api/edge/library-entries/'' @ libID (objects w r)"
    let ?body = "\<lparr>data_id = libID (objects w r), data_type = ''library-entries'',
                  data_attributes_progress = orElse f e\<rparr>"
    have as: "assignIndex (cache w) i clone = (cache w)[nat i := Some clone]"
      using idx by (simp add: assignIndex_def)
    have ev: "cache (removeAnimeFromCache clone W) = [c \<leftarrow> cache w. c \<noteq> None \<and> c \<noteq> Some r]"
      if W: "objects W = (objects w)(clone := x)" "cache W = cache w" "libID x = libID (objects w r)"
      for W x
    proof -
      have "cache (removeAnimeFromCache clone W)
              = filter (\<lambda>c. case c of None \<Rightarrow> False
                          | Some r' \<Rightarrow> libID (objects W r') \<noteq> libID (objects W clone)) (cache W)"
        by (simp add: removeAnimeFromCache_def)
      also have "\<dots> = [c \<leftarrow> cache w. c \<noteq> None \<and> c \<noteq> Some r]"
        unfolding W(1,2)
      proof (rule filter_cong [OF refl])
        fix c assume c: "c \<in> set (cache w)"
        show "(case c of None \<Rightarrow> False
                 | Some r' \<Rightarrow> libID (((objects w)(clone := x)) r') \<noteq> libID (((objects w)(clone := x)) clone))
              = (c \<noteq> None \<and> c \<noteq> Some r)"
        proof (cases c)
          case None
          then show ?thesis by simp
        next
          case (Some r')
          with c have "r' \<noteq> clone" using fresh by (auto simp: set_cacheRefs)
          then show ?thesis using Some c key [of r'] W(3) by simp
        qed
      qed
      finally show ?thesis .
    qed
    note u = saveAnimeProgress_unfold [of parse updateAnime
        "\<lparr>anime = clone, cacheIndex = i, epNum = e, forcedEpNum = f, fileName = name\<rparr>" w1]
    show ?thesis
    proof (cases "updateAnime ?url ?body")
      case (Inl failure)
      then have "objects w' = objects w1 \<and> cache w' = cache w"
        unfolding w' u by (simp add: w1_def)
      then show ?thesis by (simp add: w1_def)
    next
      case (Inr answer)
      obtain progress episodeCount where a: "answer = (progress, episodeCount)" by (cases answer)
      define x where "x = (objects w r)\<lparr>epProgress := progress, epCount := nullish episodeCount 0\<rparr>"
      define w3 where "w3 = w1\<lparr>requests := requests w @ [(?url, ?body)],
                               objects := (objects w)(clone := x)\<rparr>"
      have lx: "libID x = libID (objects w r)" by (simp add: x_def)
      have w3: "objects w3 = (objects w)(clone := x)" "cache w3 = cache w"
        by (simp_all add: w3_def w1_def)
      have s: "saveAnimeProgress parse updateAnime
                 \<lparr>anime = clone, cacheIndex = i, epNum = e, forcedEpNum = f, fileName = name\<rparr> w1 =
             (if 0 < progress \<and> Some progress = episodeCount then
                Done () (Config_save (removeAnimeFromCache clone w3))
              else if \<not> truthyStr (fileBindings w (libID (objects w r))) then
                (case parse name of
                   None \<Rightarrow> Exit (NoParsedData name) w3
                 | Some d \<Rightarrow>
                     Done () (Config_save
                       (w3\<lparr>fileBindings := (fileBindings w)
                                (libID (objects w r) \<mapsto> toLowerCase (FansubFilenameData.title d)),
                           cache := (cache w)[nat i := Some clone]\<rparr>)))
              else Done () (Config_save (w3\<lparr>cache := (cache w)[nat i := Some clone]\<rparr>)))"
        using Inr a unfolding u by (simp add: w1_def w3_def x_def Let_def as split: option.splits)
      show ?thesis
      proof (cases "0 < progress \<and> Some progress = episodeCount")
        case True
        have "w' = Config_save (removeAnimeFromCache clone w3)"
          unfolding w' s if_P [OF True] by simp
        then show ?thesis using w3 ev [OF w3 lx] by simp
      next
        case False
        show ?thesis
        proof (cases "truthyStr (fileBindings w (libID (objects w r)))")
          case True
          have "w' = Config_save (w3\<lparr>cache := (cache w)[nat i := Some clone]\<rparr>)"
            unfolding w' s if_not_P [OF False] using True by simp
          then show ?thesis using w3 by simp
        next
          case nb: False
          show ?thesis
          proof (cases "parse name")
            case None
            have "w' = w3" unfolding w' s if_not_P [OF False] using nb None by simp
            then show ?thesis using w3 by simp
          next
            case (Some d)
            have "w' = Config_save
                       (w3\<lparr>fileBindings := (fileBindings w)
                                (libID (objects w r) \<mapsto> toLowerCase (FansubFilenameData.title d)),
                           cache := (cache w)[nat i := Some clone]\<rparr>)"
              unfolding w' s if_not_P [OF False] using nb Some by simp
            then show ?thesis using w3 by simp
          qed
        qed
      qed
    qed
  qed
  have all: "\<forall>parse updateAnime e f name w'.
            w' = worldOf (saveAnimeProgress parse updateAnime
                   \<lparr>anime = clone, cacheIndex = i, epNum = e, forcedEpNum = f, fileName = name\<rparr> w1)
            \<longrightarrow> (\<forall>x. x \<noteq> clone \<longrightarrow> objects w' x = objects w x)
                \<and> (cache w' = cache w \<or> cache w' = (cache w)[nat i := Some clone]
                     \<or> cache w' = [c \<leftarrow> cache w. c \<noteq> None \<and> c \<noteq> Some r])"
    by (intro allI impI) (rule sync)
  have o1: "objects w1 clone = objects w r" and o2: "cache w1 = cache w"
    by (simp_all add: w1_def)
  from idx have i0: "0 \<le> i" and i1: "nat i < length (cache w)" and i2: "cache w ! nat i = Some r"
    by simp_all
  show ?thesis
    by (rule exI [of _ clone], rule exI [of _ i], rule exI [of _ w1])
       (intro conjI v fresh o1 o2 i0 i1 i2 all)
qed

lemma nth_cacheRef: "j < length xs \<Longrightarrow> xs ! j = Some r \<Longrightarrow> r \<in> set [r. Some r \<leftarrow> xs]"
  by (induction xs arbitrary: j) (auto simp: nth_Cons split: nat.splits option.splits)

lemma distinct_refs_index:
  "distinct [r. Some r \<leftarrow> xs] \<Longrightarrow> i < length xs \<Longrightarrow> j < length xs
     \<Longrightarrow> xs ! i = Some r \<Longrightarrow> xs ! j = Some r \<Longrightarrow> i = j"
proof (induction xs arbitrary: i j)
  case Nil
  then show ?case by simp
next
  case (Cons x xs)
  show ?case
  proof (cases i)
    case 0
    show ?thesis
    proof (cases j)
      case (Suc j')
      with Cons.prems 0 have "x = Some r" "j' < length xs" "xs ! j' = Some r" by simp_all
      with Cons.prems(1) nth_cacheRef [of j' xs r] show ?thesis by simp
    qed (simp add: 0)
  next
    case i: (Suc i')
    show ?thesis
    proof (cases j)
      case 0
      with Cons.prems i have "x = Some r" "i' < length xs" "xs ! i' = Some r" by simp_all
      with Cons.prems(1) nth_cacheRef [of i' xs r] show ?thesis by simp
    next
      case (Suc j')
      have d: "distinct [r. Some r \<leftarrow> xs]"
        using Cons.prems(1) by (cases x) simp_all
      from Cons.IH [OF d, of i' j'] Cons.prems i Suc show ?thesis by simp
    qed
  qed
qed

text \<open>
  C10. In a well-formed state, for an entry \<open>r\<close> of the cache that the resolver found
  alone, \<open>validateCachedAnime\<close> hands on a new object (not one of the cache) with the
  contents of \<open>r\<close> and the index of \<open>r\<close> in the cache, and leaves the cache as it is.
  Whatever the remote answers and whatever the outcome, the synchronization run on that
  copy and index changes no object but the copy, and the cache afterwards is the cache
  before, or the cache with the copy written at that index, or (on completion) the cache
  without the slot of \<open>r\<close> and without empty slots: the other entries keep their objects,
  their contents and their order; in each case every entry at another index is still
  in the cache, with its object as it was.
\<close>

theorem sync_frame:
  assumes "wellFormed w" and "Some r \<in> set (cache w)"
  shows "\<exists>clone i w1. validateCachedAnime [r] w = Done (clone, i) w1
      \<and> clone \<notin> set (cacheRefs w) \<and> objects w1 clone = objects w r \<and> cache w1 = cache w
      \<and> 0 \<le> i \<and> nat i < length (cache w) \<and> cache w ! nat i = Some r
      \<and> (\<forall>parse updateAnime e f name w'.
            w' = worldOf (saveAnimeProgress parse updateAnime
                   \<lparr>anime = clone, cacheIndex = i, epNum = e, forcedEpNum = f, fileName = name\<rparr> w1)
            \<longrightarrow> (\<forall>x. x \<noteq> clone \<longrightarrow> objects w' x = objects w x)
                \<and> (cache w' = cache w \<or> cache w' = (cache w)[nat i := Some clone]
                     \<or> cache w' = [c \<leftarrow> cache w. c \<noteq> None \<and> c \<noteq> Some r])
                \<and> (\<forall>j r'. j < length (cache w) \<and> j \<noteq> nat i \<and> cache w ! j = Some r'
                       \<longrightarrow> Some r' \<in> set (cache w') \<and> objects w' r' = objects w r'))"
proof -
  from sync_shape [OF assms] obtain clone i w1
    where v: "validateCachedAnime [r] w = Done (clone, i) w1"
      and fresh: "clone \<notin> set (cacheRefs w)"
      and o1: "objects w1 clone = objects w r" and o2: "cache w1 = cache w"
      and i0: "0 \<le> i" and i1: "nat i < length (cache w)" and i2: "cache w ! nat i = Some r"
      and sh: "\<forall>parse updateAnime e f name w'.
            w' = worldOf (saveAnimeProgress parse updateAnime
                   \<lparr>anime = clone, cacheIndex = i, epNum = e, forcedEpNum = f, fileName = name\<rparr> w1)
            \<longrightarrow> (\<forall>x. x \<noteq> clone \<longrightarrow> objects w' x = objects w x)
                \<and> (cache w' = cache w \<or> cache w' = (cache w)[nat i := Some clone]
                     \<or> cache w' = [c \<leftarrow> cache w. c \<noteq> None \<and> c \<noteq> Some r])"
    by (elim exE conjE)
  have d: "distinct [r. Some r \<leftarrow> cache w]"
    using assms(1) unfolding wellFormed_def cacheRefs_def by (simp add: distinct_map)
  have others: "Some r' \<in> set (cache w') \<and> objects w' r' = objects w r'"
    if w': "w' = worldOf (saveAnimeProgress parse updateAnime
                   \<lparr>anime = clone, cacheIndex = i, epNum = e, forcedEpNum = f, fileName = name\<rparr> w1)"
      and j: "j < length (cache w) \<and> j \<noteq> nat i \<and> cache w ! j = Some r'"
    for parse updateAnime e f name w' j r'
  proof -
    from sh [rule_format, OF w']
    have fr: "\<forall>x. x \<noteq> clone \<longrightarrow> objects w' x = objects w x"
      and shape: "cache w' = cache w \<or> cache w' = (cache w)[nat i := Some clone]
                     \<or> cache w' = [c \<leftarrow> cache w. c \<noteq> None \<and> c \<noteq> Some r]"
      by simp_all
    from j have jl: "j < length (cache w)" and ji: "j \<noteq> nat i" and jr: "cache w ! j = Some r'"
      by simp_all
    from jl jr have mem: "Some r' \<in> set (cache w)" by (metis nth_mem)
    with fresh have "r' \<noteq> clone" by (auto simp: set_cacheRefs)
    with fr have 1: "objects w' r' = objects w r'" by simp
    have ne: "r' \<noteq> r"
    proof
      assume "r' = r"
      with jr have "cache w ! j = Some r" by simp
      from distinct_refs_index [OF d jl i1 this i2] ji show False by simp
    qed
    from shape have 2: "Some r' \<in> set (cache w')"
    proof (elim disjE)
      assume "cache w' = cache w"
      with mem show ?thesis by simp
    next
      assume u: "cache w' = (cache w)[nat i := Some clone]"
      have "(cache w)[nat i := Some clone] ! j = Some r'" using ji jr by simp
      moreover have "j < length ((cache w)[nat i := Some clone])" using jl by simp
      ultimately show ?thesis unfolding u by (metis nth_mem)
    next
      assume "cache w' = [c \<leftarrow> cache w. c \<noteq> None \<and> c \<noteq> Some r]"
      with mem ne show ?thesis by simp
    qed
    from 2 1 show ?thesis ..
  qed
  have all: "\<forall>parse updateAnime e f name w'.
            w' = worldOf (saveAnimeProgress parse updateAnime
                   \<lparr>anime = clone, cacheIndex = i, epNum = e, forcedEpNum = f, fileName = name\<rparr> w1)
            \<longrightarrow> (\<forall>x. x \<noteq> clone \<longrightarrow> objects w' x = objects w x)
                \<and> (cache w' = cache w \<or> cache w' = (cache w)[nat i := Some clone]
                     \<or> cache w' = [c \<leftarrow> cache w. c \<noteq> None \<and> c \<noteq> Some r])
                \<and> (\<forall>j r'. j < length (cache w) \<and> j \<noteq> nat i \<and> cache w ! j = Some r'
                       \<longrightarrow> Some r' \<in> set (cache w') \<and> objects w' r' = objects w r')"
  proof (intro allI impI conjI)
    fix parse updateAnime e f name w'
    assume w': "w' = worldOf (saveAnimeProgress parse updateAnime
                   \<lparr>anime = clone, cacheIndex = i, epNum = e, forcedEpNum = f, fileName = name\<rparr> w1)"
    from sh [rule_format, OF w']
    show "cache w' = cache w \<or> cache w' = (cache w)[nat i := Some clone]
                     \<or> cache w' = [c \<leftarrow> cache w. c \<noteq> None \<and> c \<noteq> Some r]"
      by simp
    fix x assume "x \<noteq> clone"
    with sh [rule_format, OF w'] show "objects w' x = objects w x" by simp
  next
    fix parse updateAnime e f name w' j r'
    assume w': "w' = worldOf (saveAnimeProgress parse updateAnime
                   \<lparr>anime = clone, cacheIndex = i, epNum = e, forcedEpNum = f, fileName = name\<rparr> w1)"
      and j: "j < length (cache w) \<and> j \<noteq> nat i \<and> cache w ! j = Some r'"
    from others [OF w' j] show "Some r' \<in> set (cache w')" ..
    from others [OF w' j] show "objects w' r' = objects w r'" ..
  qed
  show ?thesis
    by (rule exI [of _ clone], rule exI [of _ i], rule exI [of _ w1])
       (intro conjI v fresh o1 o2 i0 i1 i2 all)
qed

subsection \<open>The synchronizer on the example library\<close>

text \<open>
  In the example library the entry at episode 27 of 28 is synchronized and the remote
  confirms 28 of 28: the entry leaves the cache and no binding is written.
\<close>

theorem completion_evicts_witness:
  "remote (Some 28)
      (''https://kitsu.io/api/edge/library-entries/'' @ libID (objects library (anime
          \<lparr>anime = 0, cacheIndex = 0, epNum = Num 28, forcedEpNum = Num 0,
           fileName = ''[Group] Sousou no Frieren - 28.mkv''\<rparr>)))
      \<lparr>data_id = libID (objects library (anime
          \<lparr>anime = 0, cacheIndex = 0, epNum = Num 28, forcedEpNum = Num 0,
           fileName = ''[Group] Sousou no Frieren - 28.mkv''\<rparr>)),
       data_type = ''library-entries'',
       data_attributes_progress = orElse (Num 0) (Num 28)\<rparr>
     = Inr (28, Some 28)
   \<and> (0::int) < 28
   \<and> epProgress (objects library 0) = epCount (objects library 0) - 1
   \<and> (\<exists>w'. saveAnimeProgress releaseData (remote (Some 28))
              \<lparr>anime = 0, cacheIndex = 0, epNum = Num 28, forcedEpNum = Num 0,
               fileName = ''[Group] Sousou no Frieren - 28.mkv''\<rparr> library = Done () w'
         \<and> cache w' = [Some 1]
         \<and> Some 0 \<notin> set (cache w')
         \<and> fileBindings w' = fileBindings library
         \<and> saved w' = Some (map (map_option (objects w')) (cache w'), fileBindings w'))"
proof -
  let ?opt = "\<lparr>anime = 0, cacheIndex = 0, epNum = Num 28, forcedEpNum = Num 0,
               fileName = ''[Group] Sousou no Frieren - 28.mkv''\<rparr>"
  have h: "remote (Some 28)
             (''https://kitsu.io/api/edge/library-entries/'' @ libID (objects library (anime ?opt)))
             \<lparr>data_id = libID (objects library (anime ?opt)), data_type = ''library-entries'',
              data_attributes_progress = orElse (forcedEpNum ?opt) (ProgressOptions.epNum ?opt)\<rparr>
           = Inr (28, Some 28)"
    by (simp add: remote_def orElse_def truthy_def)
  have p: "(0::int) < 28" by simp
  have f: "filter (\<lambda>c. case c of None \<Rightarrow> False
                      | Some r \<Rightarrow> libID (objects library r) \<noteq> libID (objects library (anime ?opt)))
             (cache library) = [Some 1]"
    by (simp add: library_def frieren_def bocchi_def)
  have e: "epProgress (objects library 0) = epCount (objects library 0) - 1"
    by (simp add: library_def frieren_def)
  note T = completion_evicts [of "remote (Some 28)" library ?opt 28 releaseData, OF h p, unfolded f]
  from T obtain w' where w': "saveAnimeProgress releaseData (remote (Some 28)) ?opt library = Done () w'
     \<and> cache w' = [Some 1]
     \<and> (\<forall>r. Some r \<in> set (cache w') \<longrightarrow> libID (objects w' r) \<noteq> libID (objects library (anime ?opt)))
     \<and> Some (anime ?opt) \<notin> set (cache w')
     \<and> fileBindings w' = fileBindings library
     \<and> saved w' = Some (map (map_option (objects w')) (cache w'), fileBindings w')" ..
  then have "saveAnimeProgress releaseData (remote (Some 28)) ?opt library = Done () w'
         \<and> cache w' = [Some 1]
         \<and> Some 0 \<notin> set (cache w')
         \<and> fileBindings w' = fileBindings library
         \<and> saved w' = Some (map (map_option (objects w')) (cache w'), fileBindings w')"
    by simp
  then have x: "\<exists>w'. saveAnimeProgress releaseData (remote (Some 28)) ?opt library = Done () w'
         \<and> cache w' = [Some 1]
         \<and> Some 0 \<notin> set (cache w')
         \<and> fileBindings w' = fileBindings library
         \<and> saved w' = Some (map (map_option (objects w')) (cache w'), fileBindings w')" ..
  have h': "remote (Some 28)
      (''https://kitsu.io/api/edge/library-entries/'' @ libID (objects library (anime ?opt)))
      \<lparr>data_id = libID (objects library (anime ?opt)),
       data_type = ''library-entries'',
       data_attributes_progress = orElse (Num 0) (Num 28)\<rparr>
     = Inr (28, Some 28)"
    using h by simp
  show ?thesis by (intro conjI h' p e x)
qed

text \<open>
  A forced episode number 28 wins over the file's episode number 4; the remote confirms
  28 of 28 and the entry takes both values.
\<close>

theorem sync_request_and_progress_witness:
  "remote (Some 28) (''https://kitsu.io/api/edge/library-entries/'' @ ''101'')
      \<lparr>data_id = ''101'', data_type = ''library-entries'', data_attributes_progress = Num 28\<rparr>
     = Inr (28, Some 28)
   \<and> requests (worldOf (saveAnimeProgress releaseData (remote (Some 28))
          \<lparr>anime = 0, cacheIndex = 0, epNum = Num 4, forcedEpNum = Num 28,
           fileName = ''[Group] Sousou no Frieren S2 - 04.mkv''\<rparr> library))
       = [(''https://kitsu.io/api/edge/library-entries/'' @ ''101'',
           \<lparr>data_id = ''101'', data_type = ''library-entries'', data_attributes_progress = Num 28\<rparr>)]
   \<and> epProgress (objects (worldOf (saveAnimeProgress releaseData (remote (Some 28))
          \<lparr>anime = 0, cacheIndex = 0, epNum = Num 4, forcedEpNum = Num 28,
           fileName = ''[Group] Sousou no Frieren S2 - 04.mkv''\<rparr> library)) 0) = 28
   \<and> epCount (objects (worldOf (saveAnimeProgress releaseData (remote (Some 28))
          \<lparr>anime = 0, cacheIndex = 0, epNum = Num 4, forcedEpNum = Num 28,
           fileName = ''[Group] Sousou no Frieren S2 - 04.mkv''\<rparr> library)) 0) = 28"
proof -
  let ?opt = "\<lparr>anime = 0, cacheIndex = 0, epNum = Num 4, forcedEpNum = Num 28,
           fileName = ''[Group] Sousou no Frieren S2 - 04.mkv''\<rparr>"
  let ?w' = "worldOf (saveAnimeProgress releaseData (remote (Some 28)) ?opt library)"
  let ?url = "''https://kitsu.io/api/edge/library-entries/'' @ ''101''"
  let ?body = "\<lparr>data_id = ''101'', data_type = ''library-entries'', data_attributes_progress = Num 28\<rparr>"
  have h: "remote (Some 28) ?url ?body = Inr (28, Some 28)"
    by (simp add: remote_def)
  have i: "libID (objects library (anime ?opt)) = ''101''"
    by (simp add: library_def frieren_def)
  have t: "(if forcedEpNum ?opt \<noteq> NaN \<and> forcedEpNum ?opt \<noteq> Num 0
            then forcedEpNum ?opt else ProgressOptions.epNum ?opt) = Num 28"
    by simp
  have rq: "requests library = []" by (simp add: library_def)
  have an: "anime ?opt = 0" by simp
  note T = sync_request_and_progress [of ?opt library releaseData "remote (Some 28)", unfolded Let_def i t]
  from T have r: "requests ?w' = requests library @ [(?url, ?body)]" ..
  from T have "\<forall>progress episodeCount. remote (Some 28) ?url ?body = Inr (progress, episodeCount) \<longrightarrow>
            epProgress (objects ?w' (anime ?opt)) = progress
            \<and> epCount (objects ?w' (anime ?opt)) = (case episodeCount of None \<Rightarrow> 0 | Some n \<Rightarrow> n)" ..
  from this [rule_format, OF h]
  have p: "epProgress (objects ?w' 0) = 28" and c: "epCount (objects ?w' 0) = 28"
    unfolding an by simp_all
  from r have r': "requests ?w' = [(?url, ?body)]" unfolding rq by simp
  show ?thesis by (intro conjI h r' p c)
qed

text \<open>The example library is well formed, and its first entry is found alone by \<open>frieren\<close>.\<close>

theorem sync_frame_witness:
  "wellFormed library \<and> Some 0 \<in> set (cache library) \<and> cachedAnime ''frieren'' library = [0]
   \<and> (\<exists>clone i w1. validateCachedAnime [0] library = Done (clone, i) w1
      \<and> clone \<notin> set (cacheRefs library) \<and> objects w1 clone = objects library 0
      \<and> cache w1 = cache library
      \<and> 0 \<le> i \<and> nat i < length (cache library) \<and> cache library ! nat i = Some 0
      \<and> (\<forall>parse updateAnime e f name w'.
            w' = worldOf (saveAnimeProgress parse updateAnime
                   \<lparr>anime = clone, cacheIndex = i, epNum = e, forcedEpNum = f, fileName = name\<rparr> w1)
            \<longrightarrow> (\<forall>x. x \<noteq> clone \<longrightarrow> objects w' x = objects library x)
                \<and> (cache w' = cache library \<or> cache w' = (cache library)[nat i := Some clone]
                     \<or> cache w' = [c \<leftarrow> cache library. c \<noteq> None \<and> c \<noteq> Some 0])
                \<and> (\<forall>j r'. j < length (cache library) \<and> j \<noteq> nat i \<and> cache library ! j = Some r'
                       \<longrightarrow> Some r' \<in> set (cache w') \<and> objects w' r' = objects library r')))"
proof -
  have wf: "wellFormed library"
    by (simp add: wellFormed_def cacheRefs_def library_def frieren_def bocchi_def)
  have m: "Some 0 \<in> set (cache library)" by (simp add: library_def)
  have c: "cachedAnime ''frieren'' library = [0]" by code_simp
  show ?thesis by (intro conjI wf m c sync_frame [OF wf m])
qed

subsection \<open>File bindings\<close>


lemma binding_write_shape:
  "fileBindings (worldOf (saveAnimeProgress parse updateAnime opt w)) = fileBindings w
   \<or> (\<exists>d. parse (ProgressOptions.fileName opt) = Some d
         \<and> \<not> truthyStr (fileBindings w (libID (objects w (anime opt))))
         \<and> fileBindings (worldOf (saveAnimeProgress parse updateAnime opt w))
             = (fileBindings w)(libID (objects w (anime opt))
                  \<mapsto> toLowerCase (FansubFilenameData.title d)))"
proof -
  let ?url = "''https://kitsu.io/api/edge/library-entries/'' @ libID (objects w (anime opt))"
  let ?body = "\<lparr>data_id = libID (objects w (anime opt)), data_type = ''library-entries'',
                data_attributes_progress = orElse (forcedEpNum opt) (ProgressOptions.epNum opt)\<rparr>"
  show ?thesis
  proof (cases "updateAnime ?url ?body")
    case (Inl failure)
    then show ?thesis unfolding saveAnimeProgress_unfold by simp
  next
    case (Inr answer)
    obtain progress episodeCount where a: "answer = (progress, episodeCount)" by (cases answer)
    show ?thesis
    proof (cases "truthyStr (fileBindings w (libID (objects w (anime opt))))")
      case True
      then show ?thesis
        unfolding saveAnimeProgress_unfold Inr a by (simp add: Let_def)
    next
      case nb: False
      show ?thesis
      proof (cases "parse (ProgressOptions.fileName opt)")
        case None
        then show ?thesis
          unfolding saveAnimeProgress_unfold \<open>updateAnime ?url ?body = Inr answer\<close> a
          by (simp add: Let_def)
      next
        case d: (Some d)
        show ?thesis
          unfolding saveAnimeProgress_unfold \<open>updateAnime ?url ?body = Inr answer\<close> a d
          using nb by (simp add: Let_def)
      qed
    qed
  qed
qed



subsection \<open>The bindings stay in lower case\<close>

text \<open>
  A configuration without bindings has lower-case bindings; a synchronization keeps them
  so, and so does a whole invocation, whatever the parser and the remote do.
\<close>

lemma bindingsLower_initially: "fileBindings w = Map.empty \<Longrightarrow> bindingsLower w"
  by (simp add: bindingsLower_def)

lemma bindingsLower_kept:
  assumes "bindingsLower w"
  shows "bindingsLower (worldOf (saveAnimeProgress parse updateAnime opt w))"
proof -
  have l: "toLowerCase (toLowerCase t) = toLowerCase t" for t
    by (simp add: toLowerCase_def lowerChar_idem)
  from binding_write_shape [of parse updateAnime opt w] assms show ?thesis
    by (auto simp: bindingsLower_def l split: if_splits)
qed

lemma validateCachedAnime_bindings:
  "fileBindings (worldOf (validateCachedAnime found w)) = fileBindings w"
  by (simp add: validateCachedAnime_def structuredClone_def Let_def split: prod.splits)

text \<open>An invocation changes the bindings through its synchronization only.\<close>

lemma watchAnime_bindings:
  "fileBindings (worldOf (watchAnime parse toNumber updateAnime epName epNumStrings w)) = fileBindings w
   \<or> (\<exists>opt w2. fileBindings w2 = fileBindings w
        \<and> fileBindings (worldOf (watchAnime parse toNumber updateAnime epName epNumStrings w))
            = fileBindings (worldOf (saveAnimeProgress parse updateAnime opt w2)))"
proof -
  obtain a b where e: "epNumStrings = (a, b)" by (cases epNumStrings)
  let ?run = "watchAnime parse toNumber updateAnime epName epNumStrings w"
  show ?thesis
  proof (cases "tryCreateWatchedDir (files w)")
    case (Inl err)
    then show ?thesis by (simp add: watchAnime_def e)
  next
    case (Inr wd1)
    let ?w1 = "w\<lparr>files := wd1\<rparr>"
    show ?thesis
    proof (cases "validateCachedAnime (cachedAnime epName ?w1) ?w1")
      case (Exit f w2)
      with validateCachedAnime_bindings [of "cachedAnime epName ?w1" ?w1]
      have "fileBindings w2 = fileBindings w" by simp
      then show ?thesis using Inr Exit by (simp add: watchAnime_def e)
    next
      case (Done x w2)
      obtain validAnime index where x: "x = (validAnime, index)" by (cases x)
      from validateCachedAnime_bindings [of "cachedAnime epName ?w1" ?w1] Done
      have b2: "fileBindings w2 = fileBindings w" by simp
      let ?searched = "nullish (getFileBinding (libID (objects w2 validAnime)) w2) epName"
      show ?thesis
      proof (cases "filterFansubFilenames (files w2) ?searched a")
        case (Inl err)
        then show ?thesis using Inr Done b2 unfolding x by (simp add: watchAnime_def e)
      next
        case names: (Inr names)
        let ?opt = "\<lparr>anime = validAnime, cacheIndex = index, epNum = toNumber a,
                     forcedEpNum = toNumber b, fileName = hd names\<rparr>"
        let ?sync = "saveAnimeProgress parse updateAnime ?opt w2"
        have run: "?run =
           (if names = [] then
              Exit (FileNotFound ('';by;'' @ ?searched @ '' ;x;episode ;by;'' @ a @ '' ;x;does NOT exist'')) w2
            else if length names > 1 then Exit (displayErrorTooManyFiles parse names) w2
            else (case ?sync of
                    Exit f w3 \<Rightarrow> Exit f w3
                  | Done u w3 \<Rightarrow>
                      (case moveFileToWatchedDir (hd names) (files w3) of
                         Inl e \<Rightarrow> Exit (RelocationFailure e) w3
                       | Inr wd2 \<Rightarrow> Done () (w3\<lparr>files := wd2\<rparr>))))"
          using Inr Done names unfolding x by (simp add: watchAnime_def e Let_def)
        have "fileBindings (worldOf ?run) = fileBindings w
              \<or> fileBindings (worldOf ?run) = fileBindings (worldOf ?sync)"
          unfolding run using b2
          by (cases ?sync) (simp_all split: sum.splits)
        with b2 show ?thesis by blast
      qed
    qed
  qed
qed

lemma bindingsLower_watchAnime:
  assumes "bindingsLower w"
  shows "bindingsLower (worldOf (watchAnime parse toNumber updateAnime epName epNumStrings w))"
proof -
  from watchAnime_bindings [of parse toNumber updateAnime epName epNumStrings w]
  show ?thesis
  proof (elim disjE exE conjE)
    assume "fileBindings (worldOf (watchAnime parse toNumber updateAnime epName epNumStrings w))
              = fileBindings w"
    with assms show ?thesis by (simp add: bindingsLower_def)
  next
    fix opt w2
    assume 1: "fileBindings w2 = fileBindings w"
      and 2: "fileBindings (worldOf (watchAnime parse toNumber updateAnime epName epNumStrings w))
                = fileBindings (worldOf (saveAnimeProgress parse updateAnime opt w2))"
    from 1 assms have "bindingsLower w2" by (simp add: bindingsLower_def)
    from bindingsLower_kept [OF this, of parse updateAnime opt] 2
    show ?thesis by (simp add: bindingsLower_def)
  qed
qed

section \<open>The candidate files of an invocation\<close>

text \<open>
  C6. The filter keeps, in the order of the listing, exactly the regular files of the
  working directory whose name starts with a bracketed tag, whose lower-cased name
  contains the search term, and whose name contains \<open>- 0N\<close> for an episode string \<open>N\<close>
  of one character and \<open>- N\<close> for any other, as a substring. For a term in lower case
  that is the case-insensitive match of the specification; and the term that
  \<open>watchAnime\<close> calls the filter with, the binding of an entry that the cache search
  found or else the episode name that found it, is in lower case whenever the stored
  bindings are. They are in every state that invocations reach from a configuration
  without bindings: an invocation keeps the bindings in lower case. On the two files of
  the specification's example, the term \<open>a\<close> and episode \<open>7\<close> keep the first file alone.
\<close>

theorem candidate_files:
  "readdirSync wd = Inr listing \<Longrightarrow>
     filterFansubFilenames wd searchTerm epNumStr
       = Inr [name \<leftarrow> [name. (name, File i) \<leftarrow> listing].
                startsWithTag name \<and> sublist searchTerm (toLowerCase name)
                \<and> sublist (if length epNumStr = 1 then ''- 0'' @ epNumStr else ''- '' @ epNumStr) name]
     \<and> (toLowerCase searchTerm = searchTerm \<longrightarrow>
          filterFansubFilenames wd searchTerm epNumStr
            = Inr (filter (specKeeps searchTerm epNumStr) [name. (name, File i) \<leftarrow> listing]))
     \<and> (bindingsLower w \<and> r \<in> set (cachedAnime epName w) \<longrightarrow>
          filterFansubFilenames wd
              (case fileBindings w (libID (objects w r)) of Some t \<Rightarrow> t | None \<Rightarrow> epName) epNumStr
            = Inr (filter (specKeeps (case fileBindings w (libID (objects w r)) of
                                         Some t \<Rightarrow> t | None \<Rightarrow> epName) epNumStr)
                     [name. (name, File i) \<leftarrow> listing]))
     \<and> (fileBindings w = Map.empty \<longrightarrow> bindingsLower w)
     \<and> (bindingsLower w \<longrightarrow>
          bindingsLower (worldOf (watchAnime parse toNumber updateAnime epName epNumStrings w)))
     \<and> filterFansubFilenames (Some (Dir [(''[G] A - 07.mkv'', File 1), (''[G] B - 07.mkv'', File 2)]))
          ''a'' ''7'' = Inr [''[G] A - 07.mkv'']"
proof -
  assume l: "readdirSync wd = Inr listing"
  have k: "keepsName searchTerm epNumStr
             = (\<lambda>name. startsWithTag name \<and> sublist searchTerm (toLowerCase name)
                  \<and> sublist (if length epNumStr = 1 then ''- 0'' @ epNumStr else ''- '' @ epNumStr) name)"
    by (rule ext) (rule keepsName_iff)
  have f: "filterFansubFilenames wd tm epNumStr
             = Inr (filter (keepsName tm epNumStr) [name. (name, File i) \<leftarrow> listing])" for tm
    by (simp only: filterFansubFilenames_def l regular_files sum.case)
  have s: "filterFansubFilenames wd tm epNumStr
             = Inr (filter (specKeeps tm epNumStr) [name. (name, File i) \<leftarrow> listing])"
    if "toLowerCase tm = tm" for tm
  proof -
    from that have "keepsName tm epNumStr = specKeeps tm epNumStr"
      by (intro ext keepsName_lower_term)
    then show ?thesis unfolding f by (simp only:)
  qed
  have 1: "filterFansubFilenames wd searchTerm epNumStr
       = Inr [name \<leftarrow> [name. (name, File i) \<leftarrow> listing].
                startsWithTag name \<and> sublist searchTerm (toLowerCase name)
                \<and> sublist (if length epNumStr = 1 then ''- 0'' @ epNumStr else ''- '' @ epNumStr) name]"
    unfolding f k ..
  have 2: "toLowerCase searchTerm = searchTerm \<longrightarrow>
          filterFansubFilenames wd searchTerm epNumStr
            = Inr (filter (specKeeps searchTerm epNumStr) [name. (name, File i) \<leftarrow> listing])"
    using s by (rule impI)
  have 3: "bindingsLower w \<and> r \<in> set (cachedAnime epName w) \<longrightarrow>
          filterFansubFilenames wd
              (case fileBindings w (libID (objects w r)) of Some t \<Rightarrow> t | None \<Rightarrow> epName) epNumStr
            = Inr (filter (specKeeps (case fileBindings w (libID (objects w r)) of
                                         Some t \<Rightarrow> t | None \<Rightarrow> epName) epNumStr)
                     [name. (name, File i) \<leftarrow> listing])"
  proof
    assume "bindingsLower w \<and> r \<in> set (cachedAnime epName w)"
    then have b: "bindingsLower w" and m: "r \<in> set (cachedAnime epName w)" by simp_all
    from call_term_is_lower [OF b m] show "filterFansubFilenames wd
              (case fileBindings w (libID (objects w r)) of Some t \<Rightarrow> t | None \<Rightarrow> epName) epNumStr
            = Inr (filter (specKeeps (case fileBindings w (libID (objects w r)) of
                                         Some t \<Rightarrow> t | None \<Rightarrow> epName) epNumStr)
                     [name. (name, File i) \<leftarrow> listing])"
      by (rule s)
  qed
  have 4: "fileBindings w = Map.empty \<longrightarrow> bindingsLower w"
    by (rule impI) (rule bindingsLower_initially)
  have 5: "bindingsLower w \<longrightarrow>
          bindingsLower (worldOf (watchAnime parse toNumber updateAnime epName epNumStrings w))"
    by (rule impI) (rule bindingsLower_watchAnime)
  have 6: "filterFansubFilenames (Some (Dir [(''[G] A - 07.mkv'', File 1), (''[G] B - 07.mkv'', File 2)]))
          ''a'' ''7'' = Inr [''[G] A - 07.mkv'']"
    by code_simp
  show ?thesis by (intro conjI 1 2 3 4 5 6)
qed

text \<open>
  Of a directory with episode files, a subdirectory and a link, the term \<open>a\<close> and episode
  \<open>7\<close> keep the one regular file of episode 7. With the binding remembered in the
  example library, the call for \<open>frieren\<close> and episode \<open>28\<close> searches with the binding.
  The example library without bindings has lower-case bindings, and so has the state
  after the invocation that binds its first entry.
\<close>

theorem candidate_files_witness:
  "readdirSync (Some (Dir [(''[G] A - 07.mkv'', File 1), (''notes'', Dir []),
                           (''[G] A - 112.mkv'', File 3), (''[G] a - 07.mkv'', Link 4 (Some (File 9))),
                           (''[G] Frieren Beyond Journeys End - 28.mkv'', File 5)]))
     = Inr [(''[G] A - 07.mkv'', File 1), (''notes'', Dir []),
            (''[G] A - 112.mkv'', File 3), (''[G] a - 07.mkv'', Link 4 (Some (File 9))),
            (''[G] Frieren Beyond Journeys End - 28.mkv'', File 5)]
   \<and> toLowerCase ''a'' = ''a''
   \<and> filter (specKeeps ''a'' ''7'')
        [''[G] A - 07.mkv'', ''[G] A - 112.mkv'', ''[G] Frieren Beyond Journeys End - 28.mkv'']
       = [''[G] A - 07.mkv'']
   \<and> bindingsLower boundLibrary
   \<and> 0 \<in> set (cachedAnime ''frieren'' boundLibrary)
   \<and> filter (specKeeps ''frieren beyond journeys end'' ''28'')
        [''[G] A - 07.mkv'', ''[G] A - 112.mkv'', ''[G] Frieren Beyond Journeys End - 28.mkv'']
       = [''[G] Frieren Beyond Journeys End - 28.mkv'']
   \<and> fileBindings library = Map.empty
   \<and> bindingsLower library
   \<and> fileBindings (worldOf (watchAnime releaseData Number_of_token (remote (Some 30)) ''frieren''
                               (''28'', []) library)) ''101''
       = Some ''sousou no frieren''
   \<and> bindingsLower (worldOf (watchAnime releaseData Number_of_token (remote (Some 30)) ''frieren''
                               (''28'', []) library))"
proof -
  let ?listing = "[(''[G] A - 07.mkv'', File 1), (''notes'', Dir []),
            (''[G] A - 112.mkv'', File 3), (''[G] a - 07.mkv'', Link 4 (Some (File 9))),
            (''[G] Frieren Beyond Journeys End - 28.mkv'', File 5)]"
  let ?names = "[''[G] A - 07.mkv'', ''[G] A - 112.mkv'', ''[G] Frieren Beyond Journeys End - 28.mkv'']"
  have l: "readdirSync (Some (Dir ?listing)) = Inr ?listing"
    by (simp add: readdirSync_def)
  have n: "[name. (name, File i) \<leftarrow> ?listing] = ?names" by simp
  have t: "toLowerCase ''a'' = ''a''" by code_simp
  have b: "bindingsLower boundLibrary"
    unfolding bindingsLower_def boundLibrary_def by (simp add: toLowerCase_def lowerChar_def code_def)
  have c: "0 \<in> set (cachedAnime ''frieren'' boundLibrary)" by code_simp
  have i: "fileBindings boundLibrary (libID (objects boundLibrary 0)) = Some ''frieren beyond journeys end''"
    by (simp add: boundLibrary_def library_def frieren_def)
  have e1: "filterFansubFilenames (Some (Dir ?listing)) ''a'' ''7'' = Inr [''[G] A - 07.mkv'']"
    by code_simp
  have e2: "filterFansubFilenames (Some (Dir ?listing)) ''frieren beyond journeys end'' ''28''
              = Inr [''[G] Frieren Beyond Journeys End - 28.mkv'']"
    by code_simp
  note T = candidate_files [OF l, of "''a''" "''7''" boundLibrary 0 "''frieren''", unfolded n i option.case]
  from T [THEN conjunct2, THEN conjunct1, THEN mp, OF t]
  have "filterFansubFilenames (Some (Dir ?listing)) ''a'' ''7''
                   = Inr (filter (specKeeps ''a'' ''7'') ?names)" .
  then have 1: "filter (specKeeps ''a'' ''7'') ?names = [''[G] A - 07.mkv'']"
    unfolding e1 by simp
  note U = candidate_files [OF l, of "''a''" "''28''" boundLibrary 0 "''frieren''", unfolded n i option.case]
  from U [THEN conjunct2, THEN conjunct2, THEN conjunct1, THEN mp, OF conjI [OF b c]]
  have "filterFansubFilenames (Some (Dir ?listing)) ''frieren beyond journeys end'' ''28''
                   = Inr (filter (specKeeps ''frieren beyond journeys end'' ''28'') ?names)" .
  then have 2: "filter (specKeeps ''frieren beyond journeys end'' ''28'') ?names
                  = [''[G] Frieren Beyond Journeys End - 28.mkv'']"
    unfolding e2 by simp
  have m: "fileBindings library = Map.empty" by (simp add: library_def)
  note V = candidate_files [OF l, where w = library and parse = releaseData
      and toNumber = Number_of_token and updateAnime = "remote (Some 30)" and epName = "''frieren''"
      and epNumStrings = "(''28'', [])"]
  from V [THEN conjunct2, THEN conjunct2, THEN conjunct2, THEN conjunct1, THEN mp, OF m]
  have bl: "bindingsLower library" .
  from V [THEN conjunct2, THEN conjunct2, THEN conjunct2, THEN conjunct2, THEN conjunct1, THEN mp, OF bl]
  have 3: "bindingsLower (worldOf (watchAnime releaseData Number_of_token (remote (Some 30))
                                   ''frieren'' (''28'', []) library))" .
  have 4: "fileBindings (worldOf (watchAnime releaseData Number_of_token (remote (Some 30)) ''frieren''
                               (''28'', []) library)) ''101''
       = Some ''sousou no frieren''"
    by code_simp
  show ?thesis by (intro conjI l t 1 b c 2 m bl 4 3)
qed

section \<open>Properties of the candidate resolver\<close>

lemma cachedAnime_frame [simp]:
  "cachedAnime epName (w\<lparr>files := wd\<rparr>) = cachedAnime epName w"
  "cachedAnime epName (w\<lparr>fileBindings := b\<rparr>) = cachedAnime epName w"
  by (simp_all add: cachedAnime_def animeCache_def cong: option.case_cong if_cong)

lemma set_cachedAnime:
  "set (cachedAnime epName w) = {r. Some r \<in> set (cache w) \<and> titleIncludes epName (objects w r)}"
  by (auto simp: cachedAnime_def animeCache_def split: option.splits)

lemma titleIncludes_iff:
  "titleIncludes epName a \<longleftrightarrow>
     sublist epName (toLowerCase (jpTitle a)) \<or> sublist epName (toLowerCase (enTitle a))
     \<or> (\<exists>s \<in> set (synonyms a). sublist epName (toLowerCase s))"
  by (simp add: titleIncludes_def str_includes_sublist list_ex_iff)

lemma titleIncludes_lower_term:
  "toLowerCase epName = epName \<Longrightarrow> titleIncludes epName a = specEntryMatches epName a"
  by (simp add: titleIncludes_def specEntryMatches_def containsIgnoringCase_def str_includes_sublist)


text \<open>One invocation once the watched directory is there and the cache has one match.\<close>

lemma watchAnime_resolved:
  assumes "tryCreateWatchedDir (files w) = Inr wd" and "cachedAnime epName w = [r]"
  shows "watchAnime parse toNumber updateAnime epName (fileEpNumStr, forcedEpNumStr) w =
     (let w2 = w\<lparr>files := wd, objects := (objects w)(nextRef w := objects w r),
                  nextRef := Suc (nextRef w)\<rparr>;
          fileTitle = nullish (fileBindings w (libID (objects w r))) epName
      in case filterFansubFilenames wd fileTitle fileEpNumStr of
           Inl e \<Rightarrow> Exit (FsFailure e) w2
         | Inr fansubFileNames \<Rightarrow>
             if fansubFileNames = [] then
               Exit (FileNotFound ('';by;'' @ fileTitle @ '' ;x;episode ;by;'' @ fileEpNumStr
                                   @ '' ;x;does NOT exist'')) w2
             else if length fansubFileNames > 1 then
               Exit (displayErrorTooManyFiles parse fansubFileNames) w2
             else
               (case saveAnimeProgress parse updateAnime
                       \<lparr>anime = nextRef w, cacheIndex = findIndex (\<lambda>c. c = Some r) (cache w),
                        epNum = toNumber fileEpNumStr, forcedEpNum = toNumber forcedEpNumStr,
                        fileName = hd fansubFileNames\<rparr> w2 of
                  Exit f w3 \<Rightarrow> Exit f w3
                | Done u w3 \<Rightarrow>
                    (case moveFileToWatchedDir (hd fansubFileNames) (files w3) of
                       Inl e \<Rightarrow> Exit (RelocationFailure e) w3
                     | Inr wd2 \<Rightarrow> Done () (w3\<lparr>files := wd2\<rparr>))))"
  using assms
  by (simp add: watchAnime_def validateCachedAnime_def structuredClone_def getFileBinding_def Let_def
        cong: sum.case_cong outcome.case_cong if_cong)


lemma cachedAnime_eq_filter:
  "cachedAnime epName w = [r. Some r \<leftarrow> cache w, titleIncludes epName (objects w r)]"
  by (simp add: cachedAnime_def animeCache_def)

text \<open>
  C4, as the code has it. The cache is searched with the episode name as the caller gave
  it, whatever bindings are stored: a reference is among the matches exactly when it is
  in the cache and the name is a substring of its lower-cased original title, localized
  title or one of its lower-cased synonyms; for a name in lower case these are the
  entries that contain it case-insensitively. The remembered binding of the one entry
  found, or the episode name when there is none, is the term of the file search: when no
  file passes the filter for that term, the run ends with \<open>FileNotFound\<close> for that term.
\<close>

theorem cache_search:
  "(r \<in> set (cachedAnime epName w) \<longleftrightarrow>
      Some r \<in> set (cache w)
      \<and> (sublist epName (toLowerCase (jpTitle (objects w r)))
           \<or> sublist epName (toLowerCase (enTitle (objects w r)))
           \<or> (\<exists>s \<in> set (synonyms (objects w r)). sublist epName (toLowerCase s))))
   \<and> cachedAnime epName (w\<lparr>fileBindings := b\<rparr>) = cachedAnime epName w
   \<and> (toLowerCase epName = epName \<longrightarrow>
         cachedAnime epName w = [r. Some r \<leftarrow> cache w, specEntryMatches epName (objects w r)])
   \<and> (tryCreateWatchedDir (files w) = Inr wd \<and> cachedAnime epName w = [r]
        \<and> filterFansubFilenames wd
              (case fileBindings w (libID (objects w r)) of Some t \<Rightarrow> t | None \<Rightarrow> epName) epNumStr
            = Inr []
       \<longrightarrow> exitOf (watchAnime parse toNumber updateAnime epName (epNumStr, forcedEpNumStr) w)
             = Some (FileNotFound
                      ('';by;'' @ (case fileBindings w (libID (objects w r)) of Some t \<Rightarrow> t | None \<Rightarrow> epName)
                       @ '' ;x;episode ;by;'' @ epNumStr @ '' ;x;does NOT exist'')))"
proof (intro conjI impI)
  show "r \<in> set (cachedAnime epName w) \<longleftrightarrow>
      Some r \<in> set (cache w)
      \<and> (sublist epName (toLowerCase (jpTitle (objects w r)))
           \<or> sublist epName (toLowerCase (enTitle (objects w r)))
           \<or> (\<exists>s \<in> set (synonyms (objects w r)). sublist epName (toLowerCase s)))"
    by (simp add: set_cachedAnime titleIncludes_iff)
next
  show "cachedAnime epName (w\<lparr>fileBindings := b\<rparr>) = cachedAnime epName w" by simp
next
  assume "toLowerCase epName = epName"
  then have "titleIncludes epName = specEntryMatches epName"
    by (intro ext titleIncludes_lower_term)
  then show "cachedAnime epName w = [r. Some r \<leftarrow> cache w, specEntryMatches epName (objects w r)]"
    unfolding cachedAnime_eq_filter by (simp only:)
next
  assume a: "tryCreateWatchedDir (files w) = Inr wd \<and> cachedAnime epName w = [r]
        \<and> filterFansubFilenames wd
              (case fileBindings w (libID (objects w r)) of Some t \<Rightarrow> t | None \<Rightarrow> epName) epNumStr
            = Inr []"
  then have f: "filterFansubFilenames wd (nullish (fileBindings w (libID (objects w r))) epName) epNumStr
                 = Inr []"
    by (simp add: nullish_def)
  from a have t: "tryCreateWatchedDir (files w) = Inr wd" and c: "cachedAnime epName w = [r]"
    by simp_all
  show "exitOf (watchAnime parse toNumber updateAnime epName (epNumStr, forcedEpNumStr) w)
             = Some (FileNotFound
                      ('';by;'' @ (case fileBindings w (libID (objects w r)) of Some t \<Rightarrow> t | None \<Rightarrow> epName)
                       @ '' ;x;episode ;by;'' @ epNumStr @ '' ;x;does NOT exist''))"
    unfolding watchAnime_resolved [OF t c] Let_def f by (simp add: nullish_def)
qed

lemma containsIgnoringCase_code:
  "containsIgnoringCase hay needle = str_includes (toLowerCase hay) (toLowerCase needle)"
  by (simp add: containsIgnoringCase_def str_includes_sublist)

lemma specEntryMatches_code:
  "specEntryMatches term a =
     (str_includes (toLowerCase (jpTitle a)) (toLowerCase term)
      \<or> str_includes (toLowerCase (enTitle a)) (toLowerCase term)
      \<or> list_ex (\<lambda>s. str_includes (toLowerCase s) (toLowerCase term)) (synonyms a))"
  by (simp add: specEntryMatches_def containsIgnoringCase_code)

text \<open>
  C4, as the specification words it, fails twice. With the binding
  \<open>frieren beyond journeys end\<close> remembered for the first entry of the example library,
  the name \<open>frieren\<close> finds that entry although the binding is in none of its titles;
  and the name \<open>Frieren\<close> finds nothing although the original title contains it
  case-insensitively.
\<close>

theorem cache_search_counterexample:
  "cachedAnime ''frieren'' boundLibrary = [0]
   \<and> specSearchTerm ''frieren'' boundLibrary 0 = ''frieren beyond journeys end''
   \<and> \<not> specEntryMatches (specSearchTerm ''frieren'' boundLibrary 0) (objects boundLibrary 0)
   \<and> cachedAnime ''Frieren'' library = []
   \<and> specSearchTerm ''Frieren'' library 0 = ''Frieren''
   \<and> specEntryMatches (specSearchTerm ''Frieren'' library 0) (objects library 0)"
  unfolding specEntryMatches_code by code_simp

text \<open>
  In the example library with the remembered binding, \<open>frieren\<close> finds the first entry
  through its titles, and the file search runs on the binding and finds nothing.
\<close>

theorem cache_search_witness:
  "(0 \<in> set (cachedAnime ''frieren'' boundLibrary) \<longleftrightarrow>
      Some 0 \<in> set (cache boundLibrary)
      \<and> (sublist ''frieren'' (toLowerCase (jpTitle (objects boundLibrary 0)))
           \<or> sublist ''frieren'' (toLowerCase (enTitle (objects boundLibrary 0)))
           \<or> (\<exists>s \<in> set (synonyms (objects boundLibrary 0)). sublist ''frieren'' (toLowerCase s))))
   \<and> toLowerCase ''frieren'' = ''frieren''
   \<and> cachedAnime ''frieren'' boundLibrary
       = [r. Some r \<leftarrow> cache boundLibrary, specEntryMatches ''frieren'' (objects boundLibrary r)]
   \<and> tryCreateWatchedDir (files boundLibrary)
       = Inr (Some (Dir [(''[Group] Sousou no Frieren - 28.mkv'', File 11),
                         (''[Group] Bocchi the Rock - 04.mkv'', File 12), (''watched'', Dir [])]))
   \<and> cachedAnime ''frieren'' boundLibrary = [0]
   \<and> filterFansubFilenames
         (Some (Dir [(''[Group] Sousou no Frieren - 28.mkv'', File 11),
                     (''[Group] Bocchi the Rock - 04.mkv'', File 12), (''watched'', Dir [])]))
         ''frieren beyond journeys end'' ''28'' = Inr []
   \<and> exitOf (watchAnime releaseData Number_of_token (remote (Some 28)) ''frieren'' (''28'', []) boundLibrary)
       = Some (FileNotFound '';by;frieren beyond journeys end ;x;episode ;by;28 ;x;does NOT exist'')"
proof -
  let ?wd = "Some (Dir [(''[Group] Sousou no Frieren - 28.mkv'', File 11),
                         (''[Group] Bocchi the Rock - 04.mkv'', File 12), (''watched'', Dir [])])"
  have l: "toLowerCase ''frieren'' = ''frieren''" by code_simp
  have t: "tryCreateWatchedDir (files boundLibrary) = Inr ?wd" by code_simp
  have c: "cachedAnime ''frieren'' boundLibrary = [0]" by code_simp
  have b: "fileBindings boundLibrary (libID (objects boundLibrary 0)) = Some ''frieren beyond journeys end''"
    by (simp add: boundLibrary_def library_def frieren_def)
  have f: "filterFansubFilenames ?wd ''frieren beyond journeys end'' ''28'' = Inr []" by code_simp
  note T = cache_search [of 0 "''frieren''" boundLibrary "fileBindings boundLibrary" ?wd "''28''"
     releaseData Number_of_token "remote (Some 28)" "[]"]
  from T have 1: "0 \<in> set (cachedAnime ''frieren'' boundLibrary) \<longleftrightarrow>
      Some 0 \<in> set (cache boundLibrary)
      \<and> (sublist ''frieren'' (toLowerCase (jpTitle (objects boundLibrary 0)))
           \<or> sublist ''frieren'' (toLowerCase (enTitle (objects boundLibrary 0)))
           \<or> (\<exists>s \<in> set (synonyms (objects boundLibrary 0)). sublist ''frieren'' (toLowerCase s)))" ..
  from T l have 3: "cachedAnime ''frieren'' boundLibrary
       = [r. Some r \<leftarrow> cache boundLibrary, specEntryMatches ''frieren'' (objects boundLibrary r)]"
    by (elim conjE) (erule (1) mp)
  from T have "tryCreateWatchedDir (files boundLibrary) = Inr ?wd \<and> cachedAnime ''frieren'' boundLibrary = [0]
        \<and> filterFansubFilenames ?wd
              (case fileBindings boundLibrary (libID (objects boundLibrary 0)) of Some t \<Rightarrow> t
                 | None \<Rightarrow> ''frieren'') ''28''
            = Inr []
       \<longrightarrow> exitOf (watchAnime releaseData Number_of_token (remote (Some 28)) ''frieren'' (''28'', []) boundLibrary)
             = Some (FileNotFound
                      ('';by;'' @ (case fileBindings boundLibrary (libID (objects boundLibrary 0)) of
                                     Some t \<Rightarrow> t | None \<Rightarrow> ''frieren'')
                       @ '' ;x;episode ;by;'' @ ''28'' @ '' ;x;does NOT exist''))"
    by (elim conjE)
  with t c f have 4: "exitOf (watchAnime releaseData Number_of_token (remote (Some 28)) ''frieren'' (''28'', []) boundLibrary)
       = Some (FileNotFound '';by;frieren beyond journeys end ;x;episode ;by;28 ;x;does NOT exist'')"
    unfolding b by simp
  show ?thesis by (intro conjI 1 l 3 t c f 4)
qed







end
